(* ===== verification/Prelude.thy ===== *)
theory Prelude
  imports Complex_Main "HOL-Library.Word"
begin

text \<open>
  Shared vocabulary of the development of \<open>src/index.js\<close>: the type names of the model,
  the lemma collections the component theories fill, and generic facts on lists, sums
  and integer division that more than one component uses.
\<close>

section \<open>Names of the model's types\<close>

text \<open>
  One result of \<open>Math.random()\<close> is a 52-bit word \<open>k\<close> read as the fraction
  \<open>unat k / 2^52\<close>: V8 fills the 52 mantissa bits of a double in \<open>[1, 2)\<close> and
  subtracts 1, so every result is such a fraction and lies in \<open>[0, 1)\<close>.
\<close>

type_synonym draw = "52 word"

text \<open>A JavaScript string, one \<open>char\<close> per code unit of the ASCII range.\<close>

type_synonym js_string = string

section \<open>Lemma collections\<close>

named_theorems model_eval
  "equations that evaluate the model's operations on closed inputs"

named_theorems range_facts
  "facts bounding the integers the model computes"

section \<open>Integer division by a positive resolution\<close>

text \<open>
  Scaling a draw \<open>k < D\<close> by \<open>n\<close> and flooring lands in \<open>[0, n)\<close>: the arithmetic core of
  \<open>Math.floor(Math.random() * n)\<close>.
\<close>

lemma scaled_draw_less:
  fixes k n D :: nat
  assumes "k < D" and "0 < n"
  shows "k * n div D < n"
proof -
  have "k * n < n * D" using assms by (simp add: mult.commute)
  then show ?thesis by (rule less_mult_imp_div_less)
qed

text \<open>
  The draws \<open>k < D\<close> that scale to \<open>j\<close> form an interval between two ceilings, whose
  length is \<open>D div n\<close> or one more: how evenly the scaling spreads the draws.
\<close>

lemma ceil_div_le_iff:
  fixes a n k :: nat
  assumes "0 < n"
  shows "(a + n - 1) div n \<le> k \<longleftrightarrow> a \<le> k * n"
proof -
  have "(a + n - 1) div n \<le> k \<longleftrightarrow> (a + n - 1) div n < Suc k" by (simp only: less_Suc_eq_le)
  also have "\<dots> \<longleftrightarrow> a + n - 1 < Suc k * n" using assms by (rule div_less_iff_less_mult)
  also have "\<dots> \<longleftrightarrow> a \<le> k * n" using assms by auto
  finally show ?thesis .
qed

lemma div_eq_iff_bounds:
  fixes x D j :: nat
  assumes "0 < D"
  shows "x div D = j \<longleftrightarrow> j * D \<le> x \<and> x < Suc j * D"
proof -
  have "x div D = j \<longleftrightarrow> j \<le> x div D \<and> x div D < Suc j" by auto
  also have "\<dots> \<longleftrightarrow> j * D \<le> x \<and> x < Suc j * D"
    using assms by (simp add: less_eq_div_iff_mult_less_eq div_less_iff_less_mult)
  finally show ?thesis .
qed

lemma scaled_draw_interval:
  fixes n D j :: nat
  assumes "0 < n" and "n \<le> D" and "j < n"
  shows "{k. k < D \<and> k * n div D = j} = {(j * D + n - 1) div n ..< (Suc j * D + n - 1) div n}"
proof (rule set_eqI)
  fix k
  have D: "0 < D" using assms by simp
  have kD: "k * n < Suc j * D \<Longrightarrow> k < D"
  proof -
    assume "k * n < Suc j * D"
    also have "Suc j * D \<le> n * D" using assms by (intro mult_le_mono1) simp
    finally show "k < D" by (simp add: mult.commute)
  qed
  have b: "k * n div D = j \<longleftrightarrow> j * D \<le> k * n \<and> k * n < Suc j * D" by (rule div_eq_iff_bounds [OF D])
  have c1: "(j * D + n - 1) div n \<le> k \<longleftrightarrow> j * D \<le> k * n" by (rule ceil_div_le_iff [OF assms(1)])
  have c2: "k < (Suc j * D + n - 1) div n \<longleftrightarrow> k * n < Suc j * D"
    using ceil_div_le_iff [OF assms(1), of "Suc j * D" k] by (meson not_le)
  show "k \<in> {k. k < D \<and> k * n div D = j} \<longleftrightarrow> k \<in> {(j * D + n - 1) div n ..< (Suc j * D + n - 1) div n}"
    unfolding mem_Collect_eq atLeastLessThan_iff b c1 c2 using kD by blast
qed

lemma ceil_div_gap:
  fixes a n D :: nat
  assumes "0 < n"
  shows "D div n \<le> (a + D + n - 1) div n - (a + n - 1) div n
         \<and> (a + D + n - 1) div n - (a + n - 1) div n \<le> D div n + 1"
proof -
  define q where "q = D div n" define r where "r = D mod n"
  have Dq: "D = r + q * n" by (simp add: q_def r_def)
  have rn: "r < n" using assms by (simp add: r_def)
  have split: "(a + D + n - 1) div n = (a + r + n - 1) div n + q"
  proof -
    have e: "a + D + n - 1 = (a + r + n - 1) + q * n" using Dq assms by simp
    have "((a + r + n - 1) + q * n) div n = q + (a + r + n - 1) div n"
      using assms by (intro div_mult_self1) simp
    then show ?thesis unfolding e by simp
  qed
  have lo: "(a + n - 1) div n \<le> (a + r + n - 1) div n" by (rule div_le_mono) simp
  have hi: "(a + r + n - 1) div n \<le> (a + n - 1) div n + 1"
  proof -
    have "(a + r + n - 1) div n \<le> (a + n - 1 + n) div n" using rn by (intro div_le_mono) simp
    also have "\<dots> = (a + n - 1) div n + 1" using assms by (intro div_add_self2) simp
    finally show ?thesis .
  qed
  show ?thesis unfolding split q_def [symmetric] using lo hi by linarith
qed



text \<open>
  Adding one to an integer raises its quotient by \<open>n\<close> exactly when the sum is a
  multiple of \<open>n\<close>: the step behind the leap-year terms of \<open>DayFromYear\<close>.
\<close>

lemma div_succ_int:
  fixes a n :: int
  assumes "1 < n"
  shows "(a + 1) div n = a div n + (if (a + 1) mod n = 0 then 1 else 0)"
proof -
  have m: "0 \<le> a mod n" "a mod n < n" using assms by simp_all
  have one: "1 div n = 0" "1 mod n = 1" using assms by simp_all
  have split: "(a + 1) div n = a div n + (a mod n + 1) div n"
    using div_add1_eq [of a 1 n] one by simp
  have modeq: "(a + 1) mod n = (a mod n + 1) mod n"
    using mod_add_eq [of a n 1] one by simp
  show ?thesis
  proof (cases "a mod n + 1 = n")
    case True
    then show ?thesis using split modeq assms by simp
  next
    case False
    then have "0 \<le> a mod n + 1" "a mod n + 1 < n" using m by linarith+
    then have "(a mod n + 1) div n = 0" "(a mod n + 1) mod n = a mod n + 1" by simp_all
    then show ?thesis using split modeq m by simp
  qed
qed

text \<open>Subtracting a multiple of the divisor shifts the quotient.\<close>

lemma div_shift: "(n::int) \<noteq> 0 \<Longrightarrow> (a - k * n) div n = a div n - k"
proof -
  assume n: "n \<noteq> 0"
  have "(a + (- k) * n) div n = (- k) + a div n" using n by (rule div_mult_self1)
  then show ?thesis by simp
qed

section \<open>Sums over lists with bounded summands\<close>

lemma sum_list_bounds:
  fixes f :: "'a \<Rightarrow> int"
  assumes "\<And>x. x \<in> set xs \<Longrightarrow> a \<le> f x \<and> f x \<le> b"
  shows "int (length xs) * a \<le> sum_list (map f xs) \<and> sum_list (map f xs) \<le> int (length xs) * b"
  using assms
proof (induction xs)
  case Nil
  then show ?case by simp
next
  case (Cons x xs)
  have hx: "a \<le> f x \<and> f x \<le> b" using Cons.prems by simp
  have ih: "int (length xs) * a \<le> sum_list (map f xs) \<and> sum_list (map f xs) \<le> int (length xs) * b"
    using Cons.prems by (intro Cons.IH) simp
  have "int (length (x # xs)) * a = a + int (length xs) * a"
    and "int (length (x # xs)) * b = b + int (length xs) * b"
    by (simp_all add: algebra_simps)
  with hx ih show ?case by simp
qed

section \<open>Relations along a fold and along an iteration\<close>

text \<open>
  A relation between states that is reflexive, transitive, and relates each state to
  the state after one step, relates the first state to the last one of a loop.
\<close>

lemma fold_rtrans:
  assumes step: "\<And>x s. x \<in> set xs \<Longrightarrow> R s (f x s)"
    and refl: "\<And>s. R s s" and trans: "\<And>a b c. R a b \<Longrightarrow> R b c \<Longrightarrow> R a c"
  shows "R s (fold f xs s)"
  using step
proof (induction xs arbitrary: s)
  case Nil
  then show ?case by (simp add: refl)
next
  case (Cons x xs)
  have "R s (f x s)" using Cons.prems by simp
  moreover have "R (f x s) (fold f xs (f x s))" using Cons.prems by (intro Cons.IH) simp
  ultimately show ?case using trans by simp
qed

lemma funpow_rtrans:
  assumes step: "\<And>s. R s (f s)"
    and refl: "\<And>s. R s s" and trans: "\<And>a b c. R a b \<Longrightarrow> R b c \<Longrightarrow> R a c"
  shows "R s ((f ^^ n) s)"
proof (induction n)
  case 0
  then show ?case by (simp add: refl)
next
  case (Suc n)
  then show ?case using step trans by (metis funpow.simps(2) comp_apply)
qed

end
