(* ===== verification/Random_Int.thy ===== *)
theory Random_Int
  imports Prelude
begin

text \<open>
  The random source and the density sampler of \<open>src/index.js\<close>: \<open>Math.random()\<close> as the
  next draw of an explicit random sequence, \<open>random_scale\<close> (lines 8--12) and the
  \<open>switch (commitLevel)\<close> that draws the number of commits of a day (lines 91--105).
  Besides the bounds, the theory counts the draws that give each value: the sampling is
  unbiased up to the resolution of the \<open>2^52\<close> draws.
\<close>

section \<open>The random source\<close>

text \<open>
  The process-wide generator behind \<open>Math.random()\<close> is a sequence of draws and the
  position of the next one; each call returns the next draw and advances the position.
\<close>

record rng =
  rng_seq :: "nat \<Rightarrow> draw"
  rng_pos :: nat

definition math_random :: "rng \<Rightarrow> draw \<times> rng" where
  "math_random g = (rng_seq g (rng_pos g), g\<lparr>rng_pos := Suc (rng_pos g)\<rparr>)"

definition RAND_RES :: int where
  "RAND_RES = 2 ^ 52"

section \<open>random_scale\<close>

text \<open>
  \<open>Math.floor(Math.random() * (max - min + 1)) + min\<close> on the real numbers, after
  \<open>min = Math.ceil(min)\<close> and \<open>max = Math.floor(max)\<close>: the source read literally
  (the rounding of the floating-point product is not modelled).
\<close>

definition random_scale_real :: "real \<Rightarrow> real \<Rightarrow> draw \<Rightarrow> int" where
  "random_scale_real mn mx r =
     (let mn' = \<lceil>mn\<rceil>; mx' = \<lfloor>mx\<rfloor>
      in \<lfloor>real (unat r) / 2 ^ 52 * real_of_int (mx' - mn' + 1)\<rfloor> + mn')"

text \<open>
  Every call site passes integer literals, for which \<open>Math.ceil\<close> and \<open>Math.floor\<close> are
  the identity (\<open>mn\<close> and \<open>mx\<close> are the source's \<open>min\<close> and \<open>max\<close>,
  names HOL reserves); the executable model computes the floor of the product by integer division.
\<close>

definition random_scale :: "int \<Rightarrow> int \<Rightarrow> draw \<Rightarrow> int" where
  "random_scale mn mx r = int (unat r) * (mx - mn + 1) div RAND_RES + mn"

text \<open>\<open>getRandomInt(min, max)\<close> draws once from the random source and scales the draw.\<close>

definition getRandomInt :: "int \<Rightarrow> int \<Rightarrow> rng \<Rightarrow> int \<times> rng" where
  "getRandomInt mn mx g = (let (r, g') = math_random g in (random_scale mn mx r, g'))"

section \<open>The density sampler\<close>

text \<open>
  The \<open>switch\<close> on the level string: one draw for each of the three levels, and the
  fallback count 1, which draws nothing, for any other string.
\<close>

definition commits_for_level :: "js_string \<Rightarrow> rng \<Rightarrow> int \<times> rng" where
  "commits_for_level commitLevel g =
     (if commitLevel = ''low'' then getRandomInt 0 2 g
      else if commitLevel = ''medium'' then getRandomInt 1 5 g
      else if commitLevel = ''high'' then getRandomInt 3 10 g
      else (1, g))"

section \<open>The density table of the specification\<close>

text \<open>
  The inclusive range of commits per day that each level promises: low 0--2,
  medium 1--5, high 3--10; any other string has no range.
\<close>

definition level_range :: "js_string \<Rightarrow> (int \<times> int) option" where
  "level_range l =
     (if l = ''low'' then Some (0, 2)
      else if l = ''medium'' then Some (1, 5)
      else if l = ''high'' then Some (3, 10)
      else None)"

section \<open>random_scale: bounds, reachability, the real-number reading\<close>

lemma unat_draw_less: "unat (r :: draw) < 2 ^ 52"
  using unsigned_less [of r] by simp

lemma random_scale_real_int:
  "random_scale_real (real_of_int mn) (real_of_int mx) r = random_scale mn mx r"
proof -
  have "real (unat r) / 2 ^ 52 * real_of_int (mx - mn + 1)
        = real_of_int (int (unat r) * (mx - mn + 1)) / real_of_int RAND_RES"
    by (simp add: RAND_RES_def)
  then have "\<lfloor>real (unat r) / 2 ^ 52 * real_of_int (mx - mn + 1)\<rfloor>
        = int (unat r) * (mx - mn + 1) div RAND_RES"
    by (simp only: floor_divide_of_int_eq)
  then show ?thesis by (simp add: random_scale_real_def random_scale_def)
qed

lemma random_scale_offset:
  assumes "mn \<le> mx"
  shows "random_scale mn mx r = int (unat r * nat (mx - mn + 1) div 2 ^ 52) + mn"
proof -
  have e: "int (unat r) * (mx - mn + 1) = int (unat r * nat (mx - mn + 1))"
    using assms by simp
  have d: "RAND_RES = int (2 ^ 52)" by (simp add: RAND_RES_def)
  show ?thesis unfolding random_scale_def e d by (simp only: zdiv_int)
qed

lemma random_scale_bounds:
  assumes "mn \<le> mx"
  shows "mn \<le> random_scale mn mx r \<and> random_scale mn mx r \<le> mx"
proof -
  have "unat r * nat (mx - mn + 1) div 2 ^ 52 < nat (mx - mn + 1)"
    using assms unat_draw_less [of r] by (intro scaled_draw_less) simp_all
  then show ?thesis using assms by (simp add: random_scale_offset)
qed

section \<open>The density sampler against the table\<close>

lemma commits_for_level_table:
  "commits_for_level lvl g =
     (case level_range lvl of
        Some (lo, hi) \<Rightarrow> getRandomInt lo hi g
      | None \<Rightarrow> (1, g))"
  by (simp add: commits_for_level_def level_range_def)

lemma getRandomInt_eq:
  "getRandomInt mn mx g = (random_scale mn mx (rng_seq g (rng_pos g)), g\<lparr>rng_pos := Suc (rng_pos g)\<rparr>)"
  by (simp add: getRandomInt_def math_random_def)

text \<open>
  C4. \<open>getRandomInt(min, max)\<close> returns an integer in the inclusive range
  \<open>[min, max]\<close> whenever \<open>min \<le> max\<close>, whatever the random source holds.
\<close>

theorem getRandomInt_bounds:
  assumes "mn \<le> mx"
  shows "mn \<le> fst (getRandomInt mn mx g) \<and> fst (getRandomInt mn mx g) \<le> mx"
  using assms by (simp add: getRandomInt_eq random_scale_bounds)

theorem getRandomInt_bounds_witness:
  "(0::int) \<le> 23 \<and> 0 \<le> fst (getRandomInt 0 23 \<lparr>rng_seq = (\<lambda>_. 1), rng_pos = 0\<rparr>)
   \<and> fst (getRandomInt 0 23 \<lparr>rng_seq = (\<lambda>_. 1), rng_pos = 0\<rparr>) \<le> 23"
  using getRandomInt_bounds [of 0 23 "\<lparr>rng_seq = (\<lambda>_. 1), rng_pos = 0\<rparr>"] by simp

lemma commits_for_level_rng:
  "snd (commits_for_level lvl g) = (if level_range lvl = None then g else snd (math_random g))"
  by (simp add: commits_for_level_table getRandomInt_def math_random_def split: option.splits)

text \<open>
  C3. For each of the three density levels the number of commits drawn for a day lies in
  the level's inclusive range of the specification (low 0--2, medium 1--5, high 3--10).
\<close>

theorem commits_for_level_bounds:
  assumes "level_range lvl = Some (lo, hi)"
  shows "lo \<le> fst (commits_for_level lvl g) \<and> fst (commits_for_level lvl g) \<le> hi"
proof -
  have "lo \<le> hi" using assms by (auto simp: level_range_def split: if_splits)
  then show ?thesis using assms by (simp add: commits_for_level_table getRandomInt_eq random_scale_bounds)
qed

theorem commits_for_level_bounds_witness:
  "level_range ''medium'' = Some (1, 5)
   \<and> 1 \<le> fst (commits_for_level ''medium'' \<lparr>rng_seq = (\<lambda>_. 0), rng_pos = 0\<rparr>)
   \<and> fst (commits_for_level ''medium'' \<lparr>rng_seq = (\<lambda>_. 0), rng_pos = 0\<rparr>) \<le> 5"
proof -
  have h: "level_range ''medium'' = Some (1, 5)" by (simp add: level_range_def)
  show ?thesis using commits_for_level_bounds [OF h] h by simp
qed

section \<open>Every value is drawn as often as the resolution allows\<close>

lemma card_draws: "card {r :: draw. P (unat r)} = card {k. k < 2 ^ 52 \<and> P k}"
proof -
  have "unat ` {r :: draw. P (unat r)} = {k. k < 2 ^ 52 \<and> P k}"
  proof
    show "unat ` {r :: draw. P (unat r)} \<subseteq> {k. k < 2 ^ 52 \<and> P k}" using unat_draw_less by auto
  next
    show "{k. k < 2 ^ 52 \<and> P k} \<subseteq> unat ` {r :: draw. P (unat r)}"
    proof
      fix k assume k: "k \<in> {k. k < 2 ^ 52 \<and> P k}"
      then have "unat (word_of_nat k :: draw) = k" by (simp add: unat_of_nat)
      with k show "k \<in> unat ` {r :: draw. P (unat r)}" by (metis (mono_tags) image_eqI mem_Collect_eq)
    qed
  qed
  moreover have "inj_on unat {r :: draw. P (unat r)}" by (rule inj_onI) (simp add: word_unat_eq_iff)
  ultimately show ?thesis by (metis card_image)
qed

lemma random_scale_count_eq:
  assumes "mn \<le> v" and "v \<le> mx"
  shows "random_scale mn mx r = v \<longleftrightarrow> unat r * nat (mx - mn + 1) div 2 ^ 52 = nat (v - mn)"
proof -
  have "random_scale mn mx r = int (unat r * nat (mx - mn + 1) div 2 ^ 52) + mn"
    using assms by (simp add: random_scale_offset)
  then show ?thesis using assms(1) by auto
qed

text \<open>
  C5. The sampling is unbiased up to the resolution of \<open>Math.random()\<close>: every value of
  \<open>[min, max]\<close> is returned for \<open>\<lfloor>2^52 / n\<rfloor>\<close> or \<open>\<lceil>2^52 / n\<rceil>\<close> of the
  \<open>2^52\<close> draws, \<open>n\<close> the number of values, so no two values' counts differ by more
  than one draw.
\<close>

theorem random_scale_uniform:
  assumes "mn \<le> v" and "v \<le> mx" and "mx - mn < RAND_RES"
  shows "RAND_RES div (mx - mn + 1) \<le> int (card {r. random_scale mn mx r = v})
         \<and> int (card {r. random_scale mn mx r = v}) \<le> RAND_RES div (mx - mn + 1) + 1"
proof -
  define n where "n = nat (mx - mn + 1)"
  define j where "j = nat (v - mn)"
  define D :: nat where "D = 2 ^ 52"
  have n0: "0 < n" and jn: "j < n" and nD: "n \<le> D" using assms by (auto simp: n_def j_def D_def RAND_RES_def)
  have "{r. random_scale mn mx r = v} = {r. unat r * n div D = j}"
    using random_scale_count_eq [OF assms(1,2)] by (simp add: n_def j_def D_def)
  then have "card {r. random_scale mn mx r = v} = card {r :: draw. unat r * n div D = j}" by (rule arg_cong)
  also have "\<dots> = card {k. k < D \<and> k * n div D = j}"
    using card_draws [of "\<lambda>k. k * n div D = j"] unfolding D_def .
  also have "\<dots> = (Suc j * D + n - 1) div n - (j * D + n - 1) div n"
    by (simp only: scaled_draw_interval [OF n0 nD jn] card_atLeastLessThan)
  also have "Suc j * D + n - 1 = j * D + D + n - 1" by simp
  finally have c: "card {r. random_scale mn mx r = v} = (j * D + D + n - 1) div n - (j * D + n - 1) div n" .
  have i: "RAND_RES div (mx - mn + 1) = int (D div n)"
    using assms by (simp add: RAND_RES_def D_def n_def zdiv_int)
  show ?thesis unfolding c i using ceil_div_gap [OF n0, where a = "j * D" and D = D] by linarith
qed

theorem random_scale_uniform_witness:
  "(0::int) \<le> 2 \<and> (2::int) \<le> 2 \<and> (2::int) - 0 < RAND_RES
   \<and> RAND_RES div 3 \<le> int (card {r. random_scale 0 2 r = 2})
   \<and> int (card {r. random_scale 0 2 r = 2}) \<le> RAND_RES div 3 + 1"
proof -
  have h: "(2::int) - 0 < RAND_RES" by (simp add: RAND_RES_def)
  show ?thesis using random_scale_uniform [of 0 2 2] h by simp
qed

end
