(* ===== verification/Js_Builtins.thy ===== *)
theory Js_Builtins
  imports Prelude
begin

text \<open>
  The ECMAScript built-ins that \<open>src/index.js\<close> applies to operator input:
  \<open>String.prototype.trim\<close>, \<open>String.prototype.split(',')\<close>,
  \<open>String.prototype.toLowerCase\<close>, \<open>parseInt(s, 10)\<close> and the decimal rendering
  \<open>String(n)\<close> of an integer (used by the template literals of lines 49, 73 and 75),
  and \<open>Array.prototype.join\<close>, with which the properties write a typed list of week days.
  They are not code of the repository and are modelled from the language specification,
  restricted to ASCII text: whitespace is the six ASCII white-space characters and case
  mapping is the ASCII one (no non-ASCII character lowercases to an ASCII letter, so the
  restriction does not change which density levels are accepted).
\<close>

section \<open>Whitespace and trim\<close>

definition js_is_ws :: "char \<Rightarrow> bool" where
  "js_is_ws c \<longleftrightarrow> (of_char c :: nat) \<in> {9, 10, 11, 12, 13, 32}"

definition js_trim :: "js_string \<Rightarrow> js_string" where
  "js_trim s = rev (dropWhile js_is_ws (rev (dropWhile js_is_ws s)))"

section \<open>split on a one-character separator\<close>

text \<open>
  \<open>s.split(sep)\<close> returns the maximal separator-free pieces, in order; an empty string
  gives one empty piece, and a trailing separator gives a trailing empty piece.
\<close>

fun js_split_aux :: "char \<Rightarrow> js_string \<Rightarrow> js_string \<Rightarrow> js_string list" where
  "js_split_aux sep acc [] = [acc]"
| "js_split_aux sep acc (c # cs) =
     (if c = sep then acc # js_split_aux sep [] cs else js_split_aux sep (acc @ [c]) cs)"

definition js_split :: "char \<Rightarrow> js_string \<Rightarrow> js_string list" where
  "js_split sep s = js_split_aux sep [] s"

text \<open>
  \<open>Array.prototype.join(sep)\<close>, the inverse the operator applies when typing a list of
  week days such as \<open>0,6\<close>.
\<close>

fun js_join :: "char \<Rightarrow> js_string list \<Rightarrow> js_string" where
  "js_join sep [] = []"
| "js_join sep [x] = x"
| "js_join sep (x # y # xs) = x @ sep # js_join sep (y # xs)"

section \<open>toLowerCase\<close>

definition js_lower_char :: "char \<Rightarrow> char" where
  "js_lower_char c =
     (let n = (of_char c :: nat) in if 65 \<le> n \<and> n \<le> 90 then char_of (n + 32) else c)"

definition js_toLowerCase :: "js_string \<Rightarrow> js_string" where
  "js_toLowerCase s = map js_lower_char s"

section \<open>parseInt with radix 10\<close>

text \<open>
  \<open>parseInt(s, 10)\<close>: skip leading white space, take an optional sign, then the longest
  prefix of decimal digits; no digit is \<open>NaN\<close> (here \<open>None\<close>), otherwise the signed value
  of the digits. Trailing characters are ignored (\<open>parseInt("3abc") = 3\<close>). The value
  \<open>-0\<close> is the integer 0: the script only compares it and tests it with
  \<open>Array.prototype.includes\<close>, which identifies \<open>-0\<close> with \<open>0\<close>.
\<close>

definition js_is_digit :: "char \<Rightarrow> bool" where
  "js_is_digit c \<longleftrightarrow> 48 \<le> (of_char c :: nat) \<and> (of_char c :: nat) \<le> 57"

definition digit_value :: "char \<Rightarrow> nat" where
  "digit_value c = (of_char c :: nat) - 48"

fun digits_nat :: "nat \<Rightarrow> js_string \<Rightarrow> nat" where
  "digits_nat acc [] = acc"
| "digits_nat acc (c # cs) = digits_nat (10 * acc + digit_value c) cs"

fun js_sign :: "js_string \<Rightarrow> bool \<times> js_string" where
  "js_sign [] = (False, [])"
| "js_sign (c # cs) =
     (if c = CHR ''-'' then (True, cs) else if c = CHR ''+'' then (False, cs) else (False, c # cs))"

definition js_parseInt :: "js_string \<Rightarrow> int option" where
  "js_parseInt s =
     (let (neg, r) = js_sign (dropWhile js_is_ws s);
          z = takeWhile js_is_digit r
      in if z = [] then None
         else Some ((if neg then -1 else 1) * int (digits_nat 0 z)))"

section \<open>Decimal rendering of integers\<close>

fun nat_digits :: "nat \<Rightarrow> js_string" where
  "nat_digits n =
     (if n < 10 then [char_of (48 + n)] else nat_digits (n div 10) @ [char_of (48 + n mod 10)])"

definition js_int_to_string :: "int \<Rightarrow> js_string" where
  "js_int_to_string i =
     (if i < 0 then CHR ''-'' # nat_digits (nat (- i)) else nat_digits (nat i))"

section \<open>Decimal digits read back\<close>

text \<open>
  \<open>parseInt\<close> reads back the decimal rendering of every integer: the facts the prompt
  loops need to accept a year typed in its usual spelling.
\<close>

lemma digit_char_of:
  assumes "d < 10"
  shows "js_is_digit (char_of (48 + d)) \<and> digit_value (char_of (48 + d)) = d"
proof -
  have "(of_char (char_of (48 + d) :: char) :: nat) = 48 + d"
    using assms by (simp add: of_char_of)
  then show ?thesis using assms by (simp add: js_is_digit_def digit_value_def)
qed

lemma digit_not_ws_sign:
  "js_is_digit c \<Longrightarrow> \<not> js_is_ws c \<and> c \<noteq> CHR ''-'' \<and> c \<noteq> CHR ''+''"
  by (auto simp: js_is_digit_def js_is_ws_def)

declare nat_digits.simps [simp del]

lemma nat_digits_digits: "c \<in> set (nat_digits n) \<Longrightarrow> js_is_digit c"
proof (induction n rule: nat_digits.induct)
  case (1 n)
  then show ?case
    by (cases "n < 10") (auto simp: nat_digits.simps [of n] digit_char_of)
qed

lemma nat_digits_Cons: "\<exists>c cs. nat_digits n = c # cs"
proof (induction n rule: nat_digits.induct)
  case (1 n)
  then show ?case
    by (cases "n < 10") (auto simp: nat_digits.simps [of n])
qed

lemma digits_nat_append: "digits_nat acc (xs @ ys) = digits_nat (digits_nat acc xs) ys"
  by (induction acc xs rule: digits_nat.induct) simp_all

lemma digits_nat_nat_digits: "digits_nat 0 (nat_digits n) = n"
proof (induction n rule: nat_digits.induct)
  case (1 n)
  show ?case
  proof (cases "n < 10")
    case True
    then show ?thesis by (simp add: nat_digits.simps [of n] digit_char_of)
  next
    case False
    then have "digits_nat 0 (nat_digits (n div 10)) = n div 10" using "1.IH" by simp
    with False show ?thesis
      by (simp add: nat_digits.simps [of n] digits_nat_append digit_char_of)
  qed
qed

lemma takeWhile_all: "(\<And>c. c \<in> set xs \<Longrightarrow> P c) \<Longrightarrow> takeWhile P xs = xs"
  by (induction xs) auto

lemma parse_nat_digits:
  "js_sign (dropWhile js_is_ws (nat_digits n)) = (False, nat_digits n)
   \<and> takeWhile js_is_digit (nat_digits n) = nat_digits n"
proof -
  have t: "takeWhile js_is_digit (nat_digits n) = nat_digits n"
    by (rule takeWhile_all) (rule nat_digits_digits)
  obtain c cs where eq: "nat_digits n = c # cs" using nat_digits_Cons by blast
  then have "js_is_digit c" using nat_digits_digits [of c n] by simp
  then have "\<not> js_is_ws c \<and> c \<noteq> CHR ''-'' \<and> c \<noteq> CHR ''+''" by (rule digit_not_ws_sign)
  with eq t show ?thesis by simp
qed

lemma js_parseInt_nat_digits:
  "js_parseInt (nat_digits n) = Some (int n)"
  "js_parseInt (CHR ''-'' # nat_digits n) = Some (- int n)"
proof -
  have ne: "nat_digits n \<noteq> []" using nat_digits_Cons by (metis list.distinct(1))
  show "js_parseInt (nat_digits n) = Some (int n)"
    using parse_nat_digits [of n] ne by (simp add: js_parseInt_def Let_def digits_nat_nat_digits del: takeWhile_eq_all_conv)
  show "js_parseInt (CHR ''-'' # nat_digits n) = Some (- int n)"
    using parse_nat_digits [of n] ne by (simp add: js_parseInt_def Let_def js_is_ws_def digits_nat_nat_digits del: takeWhile_eq_all_conv)
qed

theorem js_parseInt_int_to_string: "js_parseInt (js_int_to_string i) = Some i"
  by (simp add: js_int_to_string_def js_parseInt_nat_digits)

section \<open>split undoes join\<close>

lemma js_split_aux_piece:
  "sep \<notin> set x \<Longrightarrow> js_split_aux sep acc (x @ sep # rest) = (acc @ x) # js_split_aux sep [] rest"
  "sep \<notin> set x \<Longrightarrow> js_split_aux sep acc x = [acc @ x]"
  by (induction x arbitrary: acc) auto

lemma js_split_join:
  "xs \<noteq> [] \<Longrightarrow> (\<And>x. x \<in> set xs \<Longrightarrow> sep \<notin> set x) \<Longrightarrow> js_split sep (js_join sep xs) = xs"
proof (induction sep xs rule: js_join.induct)
  case (2 sep x)
  then show ?case using js_split_aux_piece(2) [of sep x "[]"] by (simp add: js_split_def)
next
  case (3 sep x y xs)
  then show ?case using js_split_aux_piece(1) [of sep x "[]"] by (simp add: js_split_def)
qed simp

lemma comma_not_in_int_string: "CHR '','' \<notin> set (js_int_to_string d)"
proof -
  have "\<not> js_is_digit (CHR '','')" by (simp add: js_is_digit_def)
  then show ?thesis using nat_digits_digits by (auto simp: js_int_to_string_def)
qed

end
