(* ===== verification/Calendar_Days.thy ===== *)
theory Calendar_Days
  imports Js_Builtins
begin

text \<open>
  The day arithmetic under the calendar that \<open>moment\<close> gives the day traversal of \<open>src/index.js\<close>
  (lines 75--115). A \<open>moment\<close> wraps a JavaScript \<open>Date\<close>, a count of time since the
  epoch; the cursor of the loop is kept at local midnight, so it is modelled as the local
  day number \<open>t\<close> (days since 1970-01-01). \<open>add(1, 'day')\<close> is \<open>t + 1\<close>,
  \<open>isSameOrBefore(end, 'day')\<close> compares day numbers, \<open>day()\<close> is ECMAScript's
  \<open>WeekDay\<close>, and the calendar fields printed by \<open>format()\<close> come from ECMAScript's
  proleptic Gregorian day arithmetic (\<open>DayFromYear\<close>, \<open>YearFromTime\<close>,
  \<open>MonthFromTime\<close>, \<open>DateFromTime\<close>). Months and days are 1-based, as moment prints
  them. Local time is the time base throughout: the zone's offset enters only the printed
  suffix of \<open>format()\<close>.
\<close>

section \<open>Years\<close>

definition leap_year :: "int \<Rightarrow> bool" where
  "leap_year y \<longleftrightarrow> (y mod 4 = 0 \<and> y mod 100 \<noteq> 0) \<or> y mod 400 = 0"

definition days_in_year :: "int \<Rightarrow> int" where
  "days_in_year y = (if leap_year y then 366 else 365)"

text \<open>ECMAScript \<open>DayFromYear(y)\<close>: the day number of January 1 of \<open>y\<close>.\<close>

definition day_from_year :: "int \<Rightarrow> int" where
  "day_from_year y =
     365 * (y - 1970) + (y - 1969) div 4 - (y - 1901) div 100 + (y - 1601) div 400"

section \<open>Months\<close>

definition month_days :: "bool \<Rightarrow> nat \<Rightarrow> int" where
  "month_days lp m =
     (if m = 2 then (if lp then 29 else 28)
      else if m = 4 \<or> m = 6 \<or> m = 9 \<or> m = 11 then 30 else 31)"

definition days_before_month :: "bool \<Rightarrow> nat \<Rightarrow> int" where
  "days_before_month lp m = sum_list (map (month_days lp) [1..<m])"

section \<open>Calendar dates and day numbers\<close>

record civil =
  c_year :: int
  c_month :: nat
  c_day :: nat

definition valid_civil :: "civil \<Rightarrow> bool" where
  "valid_civil c \<longleftrightarrow>
     1 \<le> c_month c \<and> c_month c \<le> 12 \<and> 1 \<le> c_day c
     \<and> int (c_day c) \<le> month_days (leap_year (c_year c)) (c_month c)"

text \<open>ECMAScript \<open>MakeDay\<close>, with 1-based months.\<close>

definition make_day :: "civil \<Rightarrow> int" where
  "make_day c =
     day_from_year (c_year c) + days_before_month (leap_year (c_year c)) (c_month c)
     + int (c_day c) - 1"

section \<open>Lengths of years and months\<close>

text \<open>
  \<open>DayFromYear\<close> advances by the length of the year, so it is strictly increasing;
  it grows at most 366 days a year after 1970 and falls at least 365 a year before.
  \<open>MakeDay\<close> of a valid date lies in the day range of its year.
\<close>

lemma day_from_year_succ: "day_from_year (y + 1) = day_from_year y + days_in_year y"
proof -
  have m4: "(y - 1968) mod 4 = y mod 4" using mod_diff_right_eq [of y 1968 4] by simp
  have m100: "(y - 1900) mod 100 = y mod 100" using mod_diff_right_eq [of y 1900 100] by simp
  have m400: "(y - 1600) mod 400 = y mod 400" using mod_diff_right_eq [of y 1600 400] by simp
  have i1: "y mod 400 = 0 \<Longrightarrow> y mod 100 = 0" using mod_mod_cancel [of 100 400 y] by simp
  have i2: "y mod 100 = 0 \<Longrightarrow> y mod 4 = 0" using mod_mod_cancel [of 4 100 y] by simp
  have a: "(y + 1 - 1969) div 4 = (y - 1969) div 4 + (if y mod 4 = 0 then 1 else 0)"
    using div_succ_int [of 4 "y - 1969"] m4 by (simp add: algebra_simps)
  have b: "(y + 1 - 1901) div 100 = (y - 1901) div 100 + (if y mod 100 = 0 then 1 else 0)"
    using div_succ_int [of 100 "y - 1901"] m100 by (simp add: algebra_simps)
  have c: "(y + 1 - 1601) div 400 = (y - 1601) div 400 + (if y mod 400 = 0 then 1 else 0)"
    using div_succ_int [of 400 "y - 1601"] m400 by (simp add: algebra_simps)
  show ?thesis
    unfolding day_from_year_def days_in_year_def leap_year_def a b c
    using i1 i2 by (simp add: algebra_simps)
qed

lemma days_in_year_range: "365 \<le> days_in_year y \<and> days_in_year y \<le> 366"
  by (simp add: days_in_year_def)

lemma day_from_year_less_succ: "day_from_year y < day_from_year (y + 1)"
  using day_from_year_succ [of y] days_in_year_range [of y] by simp

lemma day_from_year_strict_mono:
  assumes "y < y'"
  shows "day_from_year y < day_from_year y'"
proof -
  obtain k :: nat where k: "y' = y + int k + 1" using assms by (metis zless_iff_Suc_zadd add.assoc of_nat_Suc add.commute)
  have "day_from_year y < day_from_year (y + int k + 1)"
  proof (induction k)
    case 0
    then show ?case using day_from_year_less_succ [of y] by simp
  next
    case (Suc k)
    have e: "y + int (Suc k) + 1 = (y + int k + 1) + 1" by simp
    show ?case unfolding e using Suc.IH day_from_year_less_succ [of "y + int k + 1"] by linarith
  qed
  then show ?thesis using k by simp
qed

lemma day_from_year_mono_iff: "day_from_year y \<le> day_from_year y' \<longleftrightarrow> y \<le> y'"
proof
  assume "day_from_year y \<le> day_from_year y'"
  then show "y \<le> y'" by (meson day_from_year_strict_mono not_le)
next
  assume "y \<le> y'"
  then show "day_from_year y \<le> day_from_year y'"
    using day_from_year_strict_mono [of y y'] by (cases "y = y'") auto
qed

lemma day_from_year_upper: "day_from_year (1970 + int k) \<le> 366 * int k"
proof (induction k)
  case 0
  then show ?case by (simp add: day_from_year_def)
next
  case (Suc k)
  have "day_from_year (1970 + int (Suc k)) = day_from_year (1970 + int k) + days_in_year (1970 + int k)"
    using day_from_year_succ [of "1970 + int k"] by (simp add: add.assoc)
  with Suc days_in_year_range [of "1970 + int k"] show ?case by simp
qed

lemma day_from_year_lower: "day_from_year (1970 - int k) \<le> - 365 * int k"
proof (induction k)
  case 0
  then show ?case by (simp add: day_from_year_def)
next
  case (Suc k)
  have "day_from_year (1970 - int k) = day_from_year (1970 - int (Suc k)) + days_in_year (1970 - int (Suc k))"
    using day_from_year_succ [of "1970 - int (Suc k)"] by simp
  with Suc days_in_year_range [of "1970 - int (Suc k)"] show ?case by simp
qed

lemma days_before_month_Suc:
  "1 \<le> m \<Longrightarrow> days_before_month lp (Suc m) = days_before_month lp m + month_days lp m"
  by (simp add: days_before_month_def)

lemma month_days_range: "28 \<le> month_days lp m \<and> month_days lp m \<le> 31"
  by (simp add: month_days_def)

lemma days_before_month_13: "days_before_month (leap_year y) 13 = days_in_year y"
  by (simp add: days_before_month_def month_days_def days_in_year_def upt_rec)

lemma days_before_month_mono:
  assumes "1 \<le> m" and "m \<le> m'"
  shows "days_before_month lp m \<le> days_before_month lp m'"
  using assms(2)
proof (induction m' rule: dec_induct)
  case base
  then show ?case by simp
next
  case (step n)
  then show ?case using assms(1) month_days_range [of lp n] by (simp add: days_before_month_Suc)
qed

lemma days_before_month_nonneg: "0 \<le> days_before_month lp m"
  unfolding days_before_month_def by (rule sum_list_nonneg) (auto simp: month_days_def)

lemma make_day_in_year:
  assumes "valid_civil c"
  shows "day_from_year (c_year c) \<le> make_day c \<and> make_day c < day_from_year (c_year c + 1)"
proof -
  let ?lp = "leap_year (c_year c)"
  have m: "1 \<le> c_month c" "c_month c \<le> 12" and d: "1 \<le> c_day c" "int (c_day c) \<le> month_days ?lp (c_month c)"
    using assms by (simp_all add: valid_civil_def)
  have "days_before_month ?lp (Suc (c_month c)) \<le> days_before_month ?lp 13"
    using m by (intro days_before_month_mono) simp_all
  then have "days_before_month ?lp (c_month c) + month_days ?lp (c_month c) \<le> days_in_year (c_year c)"
    using m by (simp add: days_before_month_Suc days_before_month_13)
  then show ?thesis
    using d days_before_month_nonneg [of ?lp "c_month c"] day_from_year_succ [of "c_year c"]
    by (simp add: make_day_def)
qed

section \<open>DayFromYear in terms of the leap days before a year\<close>

text \<open>
  \<open>DayFromYear(y)\<close> counts \<open>365\<close> days a year plus the leap days of the years
  before \<open>y\<close>; the count of leap days up to \<open>y\<close> grows by one exactly at leap years.
\<close>

lemma day_from_year_prev:
  "day_from_year y = 365 * (y - 1970) + ((y - 1) div 4 - (y - 1) div 100 + (y - 1) div 400) - 477"
proof -
  have "y - 1969 = (y - 1) - 492 * 4" "y - 1901 = (y - 1) - 19 * 100" "y - 1601 = (y - 1) - 4 * 400" by simp_all
  then have "(y - 1969) div 4 = (y - 1) div 4 - 492" "(y - 1901) div 100 = (y - 1) div 100 - 19"
       "(y - 1601) div 400 = (y - 1) div 400 - 4" by (simp_all only: div_shift)
  then show ?thesis by (simp add: day_from_year_def)
qed

lemma leap_days_succ:
  "y div 4 - y div 100 + y div 400
   = ((y - 1) div 4 - (y - 1) div 100 + (y - 1) div 400) + (if leap_year y then 1 else 0)"
proof -
  have i1: "y mod 400 = 0 \<Longrightarrow> y mod 100 = 0" using mod_mod_cancel [of 100 400 y] by simp
  have i2: "y mod 100 = 0 \<Longrightarrow> y mod 4 = 0" using mod_mod_cancel [of 4 100 y] by simp
  have a: "y div 4 = (y - 1) div 4 + (if y mod 4 = 0 then 1 else 0)"
    using div_succ_int [of 4 "y - 1"] by simp
  have b: "y div 100 = (y - 1) div 100 + (if y mod 100 = 0 then 1 else 0)"
    using div_succ_int [of 100 "y - 1"] by simp
  have c: "y div 400 = (y - 1) div 400 + (if y mod 400 = 0 then 1 else 0)"
    using div_succ_int [of 400 "y - 1"] by simp
  show ?thesis unfolding a b c leap_year_def using i1 i2 by auto
qed

end
