(* ===== verification/Calendar.thy ===== *)
theory Calendar
  imports Calendar_Days
begin

text \<open>
  From a local day number back to the calendar fields that \<open>moment\<close> reads off its
  \<open>Date\<close>: ECMAScript's \<open>YearFromTime\<close> (the largest \<open>y\<close> with
  \<open>DayFromYear(y) \<le> t\<close>), \<open>MonthFromTime\<close> and \<open>DateFromTime\<close>, and
  \<open>WeekDay\<close>, which moment's \<open>day()\<close> returns (line 82 of \<open>src/index.js\<close>).
  \<open>YearFromTime\<close> is computed by a search upward from a year whose start is known to
  lie at or before \<open>t\<close>; the month by a scan over the month lengths.
\<close>

section \<open>Year, month and day of a day number\<close>

function year_search :: "int \<Rightarrow> int \<Rightarrow> int" where
  "year_search t y = (if day_from_year (y + 1) \<le> t then year_search t (y + 1) else y)"
  by pat_completeness auto
termination
  by (relation "measure (\<lambda>(t, y). nat (t - day_from_year y))")
     (auto simp: day_from_year_succ days_in_year_def split: if_split_asm)

definition year_guess :: "int \<Rightarrow> int" where
  "year_guess t = 1970 + (if 0 \<le> t then t div 366 else t div 365)"

definition year_from_day :: "int \<Rightarrow> int" where
  "year_from_day t = year_search t (year_guess t)"

function month_scan :: "bool \<Rightarrow> nat \<Rightarrow> int \<Rightarrow> nat \<times> int" where
  "month_scan lp m r =
     (if m < 12 \<and> month_days lp m \<le> r then month_scan lp (Suc m) (r - month_days lp m)
      else (m, r))"
  by pat_completeness auto
termination
  by (relation "measure (\<lambda>(lp, m, r). 12 - m)") auto

definition civil_of_day :: "int \<Rightarrow> civil" where
  "civil_of_day t =
     (let y = year_from_day t;
          (m, r) = month_scan (leap_year y) 1 (t - day_from_year y)
      in \<lparr>c_year = y, c_month = m, c_day = nat r + 1\<rparr>)"

section \<open>Day of the week\<close>

text \<open>ECMAScript \<open>WeekDay\<close>: 0 is Sunday; 1970-01-01 was a Thursday.\<close>

definition week_day :: "int \<Rightarrow> int" where
  "week_day t = (t + 4) mod 7"

text \<open>
  The week day of a calendar date by the usual closed formula (Sakamoto's), with 0 for
  Sunday: the convention the skip-day prompt of line 68 announces to the operator.
\<close>

definition sakamoto_week_day :: "civil \<Rightarrow> int" where
  "sakamoto_week_day c =
     (let y = c_year c - (if c_month c < 3 then 1 else 0)
      in (y + y div 4 - y div 100 + y div 400 + [0, 3, 2, 5, 0, 3, 5, 1, 4, 6, 2, 4] ! (c_month c - 1)
          + int (c_day c)) mod 7)"

declare year_search.simps [simp del] month_scan.simps [simp del]

section \<open>YearFromTime is the year whose days contain t\<close>

lemma year_search_bounds:
  "day_from_year y \<le> t \<Longrightarrow>
   day_from_year (year_search t y) \<le> t \<and> t < day_from_year (year_search t y + 1)"
proof (induction t y rule: year_search.induct)
  case (1 t y)
  show ?case
  proof (cases "day_from_year (y + 1) \<le> t")
    case True
    with "1.IH" show ?thesis by (simp add: year_search.simps [of t y])
  next
    case False
    with "1.prems" show ?thesis by (simp add: year_search.simps [of t y])
  qed
qed

lemma year_guess_le: "day_from_year (year_guess t) \<le> t"
proof (cases "0 \<le> t")
  case True
  have "day_from_year (1970 + int (nat (t div 366))) \<le> 366 * int (nat (t div 366))"
    by (rule day_from_year_upper)
  moreover have "366 * (t div 366) \<le> t" by simp
  moreover have "0 \<le> t div 366" using True by simp
  ultimately show ?thesis using True by (simp add: year_guess_def)
next
  case False
  have "day_from_year (1970 - int (nat (- (t div 365)))) \<le> - 365 * int (nat (- (t div 365)))"
    by (rule day_from_year_lower)
  moreover have "365 * (t div 365) \<le> t" by simp
  moreover have "t div 365 \<le> 0" using False by simp
  ultimately show ?thesis using False by (simp add: year_guess_def)
qed

lemma year_from_day_bounds:
  "day_from_year (year_from_day t) \<le> t \<and> t < day_from_year (year_from_day t + 1)"
  unfolding year_from_day_def by (rule year_search_bounds) (rule year_guess_le)

lemma year_from_day_unique:
  assumes "day_from_year y \<le> t" and "t < day_from_year (y + 1)"
  shows "year_from_day t = y"
proof -
  let ?Y = "year_from_day t"
  have b: "day_from_year ?Y \<le> t" "t < day_from_year (?Y + 1)" using year_from_day_bounds by auto
  have "\<not> ?Y < y"
  proof
    assume "?Y < y"
    then have "day_from_year (?Y + 1) \<le> day_from_year y" by (simp add: day_from_year_mono_iff)
    with b assms show False by simp
  qed
  moreover have "\<not> y < ?Y"
  proof
    assume "y < ?Y"
    then have "day_from_year (y + 1) \<le> day_from_year ?Y" by (simp add: day_from_year_mono_iff)
    with b assms show False by simp
  qed
  ultimately show ?thesis by simp
qed

section \<open>Day numbers and calendar dates correspond one to one\<close>

lemma month_scan_sum:
  "1 \<le> m \<Longrightarrow> 0 \<le> r \<Longrightarrow> month_scan lp m r = (m', r') \<Longrightarrow>
   days_before_month lp m' + r' = days_before_month lp m + r \<and> 0 \<le> r' \<and> m \<le> m'
   \<and> m' \<le> max m 12 \<and> (m' < 12 \<longrightarrow> r' < month_days lp m')"
proof (induction lp m r rule: month_scan.induct)
  case (1 lp m r)
  show ?case
  proof (cases "m < 12 \<and> month_days lp m \<le> r")
    case True
    then have "month_scan lp (Suc m) (r - month_days lp m) = (m', r')"
      using "1.prems" by (simp add: month_scan.simps [of lp m r])
    with True "1.prems" "1.IH" show ?thesis by (simp add: days_before_month_Suc)
  next
    case False
    with "1.prems" show ?thesis by (auto simp: month_scan.simps [of lp m r])
  qed
qed

lemma month_scan_valid:
  assumes "1 \<le> k" "k \<le> m" "m \<le> 12" "0 \<le> e" "e < month_days lp m"
  shows "month_scan lp k (days_before_month lp m - days_before_month lp k + e) = (m, e)"
  using assms
proof (induction "m - k" arbitrary: k)
  case 0
  then have "k = m" by simp
  with "0.prems" show ?case by (simp add: month_scan.simps [of lp m e])
next
  case (Suc n)
  let ?r = "days_before_month lp m - days_before_month lp k + e"
  have km: "k < m" using Suc.hyps by simp
  have "days_before_month lp (Suc k) \<le> days_before_month lp m"
    using Suc.prems km by (intro days_before_month_mono) simp_all
  then have step: "month_days lp k \<le> ?r"
    using Suc.prems by (simp add: days_before_month_Suc)
  have rest: "?r - month_days lp k = days_before_month lp m - days_before_month lp (Suc k) + e"
    using Suc.prems by (simp add: days_before_month_Suc)
  have "month_scan lp k ?r = month_scan lp (Suc k) (?r - month_days lp k)"
    using step km Suc.prems by (simp add: month_scan.simps [of lp k ?r])
  also have "\<dots> = (m, e)"
    unfolding rest using Suc.hyps Suc.prems km by (intro Suc.hyps(1)) simp_all
  finally show ?case .
qed

lemma civil_of_day_make_day:
  assumes "valid_civil c"
  shows "civil_of_day (make_day c) = c"
proof -
  let ?y = "c_year c" and ?lp = "leap_year (c_year c)"
  have y: "year_from_day (make_day c) = ?y"
    using make_day_in_year [OF assms] by (intro year_from_day_unique) simp_all
  have v: "1 \<le> c_month c" "c_month c \<le> 12" "1 \<le> c_day c" "int (c_day c) \<le> month_days ?lp (c_month c)"
    using assms by (simp_all add: valid_civil_def)
  have "make_day c - day_from_year ?y
        = days_before_month ?lp (c_month c) - days_before_month ?lp 1 + (int (c_day c) - 1)"
    by (simp add: make_day_def days_before_month_def)
  moreover have "month_scan ?lp 1 (days_before_month ?lp (c_month c) - days_before_month ?lp 1 + (int (c_day c) - 1))
        = (c_month c, int (c_day c) - 1)"
    using v by (intro month_scan_valid) simp_all
  ultimately show ?thesis using y v by (simp add: civil_of_day_def)
qed

lemma make_day_civil_of_day: "make_day (civil_of_day t) = t"
proof -
  let ?y = "year_from_day t"
  obtain m r where mr: "month_scan (leap_year ?y) 1 (t - day_from_year ?y) = (m, r)"
    by (cases "month_scan (leap_year ?y) 1 (t - day_from_year ?y)") auto
  have "0 \<le> t - day_from_year ?y" using year_from_day_bounds [of t] by simp
  then have "days_before_month (leap_year ?y) m + r = t - day_from_year ?y \<and> 0 \<le> r"
    using month_scan_sum [OF _ _ mr] by (simp add: days_before_month_def)
  then show ?thesis unfolding civil_of_day_def Let_def mr by (simp add: make_day_def)
qed

lemma valid_civil_of_day: "valid_civil (civil_of_day t)"
proof -
  let ?y = "year_from_day t" let ?lp = "leap_year (year_from_day t)"
  obtain m r where mr: "month_scan ?lp 1 (t - day_from_year ?y) = (m, r)"
    by (cases "month_scan ?lp 1 (t - day_from_year ?y)") auto
  have b: "0 \<le> t - day_from_year ?y" "t - day_from_year ?y < days_in_year ?y"
    using year_from_day_bounds [of t] day_from_year_succ [of ?y] by simp_all
  have s: "days_before_month ?lp m + r = t - day_from_year ?y \<and> 0 \<le> r \<and> 1 \<le> m
           \<and> m \<le> 12 \<and> (m < 12 \<longrightarrow> r < month_days ?lp m)"
    using month_scan_sum [OF _ b(1) mr] by (simp add: days_before_month_def)
  have "r < month_days ?lp m"
  proof (cases "m < 12")
    case True
    with s show ?thesis by simp
  next
    case False
    with s have "m = 12" by simp
    have "days_before_month ?lp 13 = days_before_month ?lp 12 + month_days ?lp 12"
      by (simp add: days_before_month_Suc [of 12, simplified])
    with s b \<open>m = 12\<close> show ?thesis by (simp add: days_before_month_13)
  qed
  with s show ?thesis unfolding civil_of_day_def Let_def mr by (simp add: valid_civil_def)
qed

section \<open>Consecutive days have consecutive week days\<close>

lemma week_day_range: "0 \<le> week_day t \<and> week_day t < 7"
  by (simp add: week_day_def)

lemma week_day_succ: "week_day (t + 1) = (week_day t + 1) mod 7"
proof -
  have "(week_day t + 1) mod 7 = (t + 4 + 1) mod 7"
    unfolding week_day_def by (rule mod_add_left_eq)
  then show ?thesis by (simp add: week_day_def)
qed

section \<open>The week day agrees with the calendar formula\<close>

lemma month_cases12:
  "1 \<le> (m::nat) \<Longrightarrow> m \<le> 12 \<Longrightarrow> m = 1 \<or> m = 2 \<or> m = 3 \<or> m = 4 \<or> m = 5 \<or> m = 6 \<or> m = 7 \<or> m = 8
     \<or> m = 9 \<or> m = 10 \<or> m = 11 \<or> m = 12"
  by presburger

lemma dvd7_year_term: "(7::int) dvd 364 * y + c \<longleftrightarrow> 7 dvd c"
proof -
  have "(7::int) dvd 364 * y" by (rule dvd_mult2) simp
  then show ?thesis by (rule dvd_add_right_iff)
qed

text \<open>
  \<open>day()\<close> of the cursor follows the convention the prompt announces
  (0 = Sunday, ..., 6 = Saturday): the week day of the day number of any date equals the
  closed calendar formula for that date.
\<close>

lemma week_day_sakamoto:
  assumes "1 \<le> c_month c" and "c_month c \<le> 12"
  shows "week_day (make_day c) = sakamoto_week_day c"
proof -
  define y where "y = c_year c"
  define s where "s = (y - 1) div 4 - (y - 1) div 100 + (y - 1) div 400"
  define l :: int where "l = (if leap_year y then 1 else 0)"
  define d where "d = int (c_day c)"
  define m where "m = c_month c"
  have wd: "week_day (make_day c) = (365 * (y - 1970) + s - 477 + days_before_month (leap_year y) m + d + 3) mod 7"
    unfolding week_day_def make_day_def y_def [symmetric] d_def [symmetric] m_def [symmetric] day_from_year_prev s_def
    by (simp add: algebra_simps)
  have sy: "y + y div 4 - y div 100 + y div 400 = y + s + l"
    using leap_days_succ [of y] unfolding s_def l_def by linarith
  have sy1: "(y - 1) + (y - 1) div 4 - (y - 1) div 100 + (y - 1) div 400 = y - 1 + s"
    unfolding s_def by linarith
  have sk: "sakamoto_week_day c =
      (if m < 3 then (y - 1 + s + [0, 3, 2, 5, 0, 3, 5, 1, 4, 6, 2, 4] ! (m - 1) + d) mod 7
       else (y + s + l + [0, 3, 2, 5, 0, 3, 5, 1, 4, 6, 2, 4] ! (m - 1) + d) mod 7)"
  proof (cases "m < 3")
    case True
    have "sakamoto_week_day c = ((y - 1) + (y - 1) div 4 - (y - 1) div 100 + (y - 1) div 400
        + [0, 3, 2, 5, 0, 3, 5, 1, 4, 6, 2, 4] ! (m - 1) + d) mod 7"
      using True unfolding sakamoto_week_day_def Let_def y_def m_def d_def by simp
    then show ?thesis using True sy1 by simp
  next
    case False
    have "sakamoto_week_day c = (y + y div 4 - y div 100 + y div 400
        + [0, 3, 2, 5, 0, 3, 5, 1, 4, 6, 2, 4] ! (m - 1) + d) mod 7"
      using False unfolding sakamoto_week_day_def Let_def y_def m_def d_def by simp
    then show ?thesis using False sy by simp
  qed
  have lp: "(if leap_year y then 29 else 28) = 28 + l" by (simp add: l_def)
  have mc: "m = 1 \<or> m = 2 \<or> m = 3 \<or> m = 4 \<or> m = 5 \<or> m = 6 \<or> m = 7 \<or> m = 8
     \<or> m = 9 \<or> m = 10 \<or> m = 11 \<or> m = 12" using assms unfolding m_def by (rule month_cases12)
  show ?thesis unfolding wd sk
    using mc by (elim disjE) (simp_all add: days_before_month_def month_days_def lp mod_eq_dvd_iff upt_rec dvd7_year_term)
qed

end
