(* ===== verification/Moment_Format.thy ===== *)
theory Moment_Format
  imports Calendar "HOL-Library.Monad_Syntax"
begin

text \<open>
  \<open>moment().format()\<close> with no argument, as line 112 of \<open>src/index.js\<close> calls it:
  moment's default format \<open>YYYY-MM-DDTHH:mm:ssZ\<close>, each field written by moment's
  \<open>zeroFill\<close> (the \<open>YYYY\<close> token is \<open>zeroFill(year, 4)\<close>), and \<open>Z\<close> the local
  offset from UTC as \<open>+HH:mm\<close> or \<open>-HH:mm\<close>. The offset is an input of the model: a
  function of the local date and time (so daylight-saving changes are allowed), in minutes.
  The theory also holds a strict reader of that shape, \<open>parse_timestamp\<close>, standing for
  the ISO 8601 date that \<open>git commit --date\<close> reads, and proves that it reads back the
  date, time and offset that were printed.
\<close>

type_synonym tz = "int \<Rightarrow> int \<Rightarrow> int \<Rightarrow> int \<Rightarrow> int"

text \<open>
  \<open>zeroFill(number, targetLength)\<close>: the sign of a negative number, then zeros up to
  the target length, then the decimal digits of the absolute value.
\<close>

definition zero_fill :: "int \<Rightarrow> nat \<Rightarrow> js_string" where
  "zero_fill n w =
     (let a = nat_digits (nat \<bar>n\<bar>)
      in (if 0 \<le> n then [] else ''-'') @ replicate (w - length a) (CHR ''0'') @ a)"

definition format_year :: "int \<Rightarrow> js_string" where
  "format_year y = zero_fill y 4"

definition format_offset :: "int \<Rightarrow> js_string" where
  "format_offset off =
     (let a = \<bar>off\<bar>
      in (if off < 0 then ''-'' else ''+'') @ zero_fill (a div 60) 2 @ '':'' @ zero_fill (a mod 60) 2)"

text \<open>
  The moment at local day \<open>t\<close>, after \<open>.hour(hh).minute(mm).second(ss)\<close>, printed
  with the offset \<open>off\<close>.
\<close>

definition moment_format :: "int \<Rightarrow> int \<Rightarrow> int \<Rightarrow> int \<Rightarrow> int \<Rightarrow> js_string" where
  "moment_format t hh mm ss off =
     (let c = civil_of_day t
      in format_year (c_year c) @ ''-'' @ zero_fill (int (c_month c)) 2 @ ''-''
         @ zero_fill (int (c_day c)) 2 @ ''T'' @ zero_fill hh 2 @ '':'' @ zero_fill mm 2
         @ '':'' @ zero_fill ss 2 @ format_offset off)"

section \<open>Reading the timestamp back\<close>

text \<open>
  A parser takes the remaining characters and returns the value read and the rest, or
  \<open>None\<close>: one expected character, a fixed number of decimal digits, a sign.
\<close>

definition expect :: "char \<Rightarrow> js_string \<Rightarrow> js_string option" where
  "expect c s = (case s of x # r \<Rightarrow> if x = c then Some r else None | [] \<Rightarrow> None)"

definition read_digits :: "nat \<Rightarrow> js_string \<Rightarrow> (nat \<times> js_string) option" where
  "read_digits w s =
     (if w \<le> length s \<and> list_all js_is_digit (take w s) then Some (digits_nat 0 (take w s), drop w s)
      else None)"

definition read_sign :: "js_string \<Rightarrow> (int \<times> js_string) option" where
  "read_sign s =
     (case s of x # r \<Rightarrow> if x = CHR ''+'' then Some (1, r) else if x = CHR ''-'' then Some (-1, r) else None
      | [] \<Rightarrow> None)"

definition parse_timestamp :: "js_string \<Rightarrow> (civil \<times> int \<times> int \<times> int \<times> int) option" where
  "parse_timestamp s = do {
     (y, s) \<leftarrow> read_digits 4 s; s \<leftarrow> expect CHR ''-'' s;
     (mo, s) \<leftarrow> read_digits 2 s; s \<leftarrow> expect CHR ''-'' s;
     (d, s) \<leftarrow> read_digits 2 s; s \<leftarrow> expect CHR ''T'' s;
     (hh, s) \<leftarrow> read_digits 2 s; s \<leftarrow> expect CHR '':'' s;
     (mi, s) \<leftarrow> read_digits 2 s; s \<leftarrow> expect CHR '':'' s;
     (se, s) \<leftarrow> read_digits 2 s;
     (sg, s) \<leftarrow> read_sign s;
     (oh, s) \<leftarrow> read_digits 2 s; s \<leftarrow> expect CHR '':'' s;
     (om, s) \<leftarrow> read_digits 2 s;
     if s = [] then Some (\<lparr>c_year = int y, c_month = mo, c_day = d\<rparr>, int hh, int mi, int se, sg * int (60 * oh + om))
     else None
   }"

section \<open>Fixed-width fields read back\<close>

lemma nat_digits_length: "n < 10 ^ k \<Longrightarrow> 0 < k \<Longrightarrow> length (nat_digits n) \<le> k"
proof (induction n arbitrary: k rule: nat_digits.induct)
  case (1 n)
  show ?case
  proof (cases "n < 10")
    case True
    then show ?thesis using "1.prems" by (simp add: nat_digits.simps [of n])
  next
    case False
    obtain k' where k: "k = Suc k'" using "1.prems" by (cases k) auto
    have "n div 10 < 10 ^ k'" using "1.prems" k by (simp add: div_less_iff_less_mult mult.commute)
    moreover have "0 < k'" using False "1.prems" k by (cases k') auto
    ultimately have "length (nat_digits (n div 10)) \<le> k'" using "1.IH" False by blast
    then show ?thesis using False k by (simp add: nat_digits.simps [of n])
  qed
qed

lemma digits_nat_zeros: "digits_nat 0 (replicate k (CHR ''0'') @ ds) = digits_nat 0 ds"
proof -
  have "digits_nat 0 (replicate k (CHR ''0'')) = 0"
    by (induction k) (simp_all add: digit_value_def)
  then show ?thesis by (simp add: digits_nat_append)
qed

lemma zero_fill_digits:
  assumes "0 \<le> n" and "n < 10 ^ w" and "0 < w"
  shows "length (zero_fill n w) = w \<and> list_all js_is_digit (zero_fill n w) \<and> digits_nat 0 (zero_fill n w) = nat n"
proof -
  have "nat n < 10 ^ w" using assms by (metis nat_less_iff of_nat_numeral of_nat_power)
  then have l: "length (nat_digits (nat n)) \<le> w" using assms(3) by (rule nat_digits_length)
  have d: "list_all js_is_digit (nat_digits (nat n))" by (simp add: list_all_iff nat_digits_digits)
  have z: "js_is_digit (CHR ''0'')" by (simp add: js_is_digit_def)
  have "list_all js_is_digit (replicate (w - length (nat_digits (nat n))) (CHR ''0'') @ nat_digits (nat n))"
    using d z by (auto simp: list_all_iff)
  then show ?thesis using assms(1) l
    by (simp add: zero_fill_def Let_def digits_nat_zeros digits_nat_nat_digits)
qed

lemma read_digits_zero_fill:
  assumes "0 \<le> n" and "n < 10 ^ w" and "0 < w"
  shows "read_digits w (zero_fill n w @ rest) = Some (nat n, rest)"
  using zero_fill_digits [OF assms] by (simp add: read_digits_def)

lemma read_digits_zero_fill_Nil:
  assumes "0 \<le> n" and "n < 10 ^ w" and "0 < w"
  shows "read_digits w (zero_fill n w) = Some (nat n, [])"
  using read_digits_zero_fill [OF assms, of "[]"] by simp

lemma format_offset_split:
  "format_offset off = (if off < 0 then CHR ''-'' else CHR ''+'') # zero_fill (\<bar>off\<bar> div 60) 2 @ CHR '':'' # zero_fill (\<bar>off\<bar> mod 60) 2"
  by (simp add: format_offset_def Let_def)

lemma offset_parts:
  "(if off < 0 then -1 else 1) * int (60 * nat (\<bar>off\<bar> div 60) + nat (\<bar>off\<bar> mod 60)) = (off :: int)"
proof -
  have "0 \<le> \<bar>off\<bar> div 60" by simp
  then have "int (60 * nat (\<bar>off\<bar> div 60) + nat (\<bar>off\<bar> mod 60)) = 60 * (\<bar>off\<bar> div 60) + \<bar>off\<bar> mod 60"
    by simp
  also have "\<dots> = \<bar>off\<bar>" by (rule mult_div_mod_eq)
  finally show ?thesis by (simp add: abs_if)
qed

lemma read_sign_offset:
  "read_sign ((if off < 0 then CHR ''-'' else CHR ''+'') # rest) = Some (if off < 0 then -1 else 1, rest)"
  by (simp add: read_sign_def)

lemma parse_moment_format:
  assumes y: "0 \<le> c_year (civil_of_day t)" "c_year (civil_of_day t) \<le> 9999"
    and h: "0 \<le> hh" "hh \<le> 23" and m: "0 \<le> mm" "mm \<le> 59" and s: "0 \<le> ss" "ss \<le> 59"
    and o: "\<bar>off\<bar> < 6000"
  shows "parse_timestamp (moment_format t hh mm ss off) = Some (civil_of_day t, hh, mm, ss, off)"
proof -
  define c where "c = civil_of_day t"
  define sc where "sc = (if off < 0 then CHR ''-'' else CHR ''+'')"
  define sg :: int where "sg = (if off < 0 then -1 else 1)"
  define oh where "oh = \<bar>off\<bar> div 60" define om where "om = \<bar>off\<bar> mod 60"
  have v: "1 \<le> c_month c" "c_month c \<le> 12" "1 \<le> c_day c" "int (c_day c) \<le> 31"
    using valid_civil_of_day [of t] month_days_range [of "leap_year (c_year c)" "c_month c"]
    unfolding c_def [symmetric] valid_civil_def by linarith+
  have ohm: "0 \<le> oh" "oh < 10 ^ 2" "0 \<le> om" "om < 10 ^ 2" using o by (simp_all add: oh_def om_def)
  have r: "read_digits 4 (zero_fill (c_year c) 4 @ rest) = Some (nat (c_year c), rest)"
          "read_digits 2 (zero_fill (int (c_month c)) 2 @ rest) = Some (c_month c, rest)"
          "read_digits 2 (zero_fill (int (c_day c)) 2 @ rest) = Some (c_day c, rest)"
          "read_digits 2 (zero_fill hh 2 @ rest) = Some (nat hh, rest)"
          "read_digits 2 (zero_fill mm 2 @ rest) = Some (nat mm, rest)"
          "read_digits 2 (zero_fill ss 2 @ rest) = Some (nat ss, rest)"
          "read_digits 2 (zero_fill oh 2 @ rest) = Some (nat oh, rest)"
          "read_digits 2 (zero_fill om 2) = Some (nat om, [])" for rest
    using y v h m s ohm unfolding c_def [symmetric]
    by (simp_all add: read_digits_zero_fill read_digits_zero_fill_Nil)
  have rs: "read_sign (sc # rest) = Some (sg, rest)" for rest
    unfolding sc_def sg_def by (rule read_sign_offset)
  have fy: "format_year (c_year c) = zero_fill (c_year c) 4" using y unfolding c_def [symmetric] by (simp add: format_year_def)
  have fo: "format_offset off = sc # zero_fill oh 2 @ CHR '':'' # zero_fill om 2"
    unfolding sc_def oh_def om_def by (rule format_offset_split)
  have cc: "\<lparr>c_year = c_year c, c_month = c_month c, c_day = c_day c\<rparr> = c" by simp
  have "sg * int (60 * nat oh + nat om) = off" unfolding sg_def oh_def om_def by (rule offset_parts)
  then have ofs: "sg * (60 * oh + om) = off" using ohm by simp
  show ?thesis
    unfolding moment_format_def Let_def c_def [symmetric] fy fo
    using y [folded c_def] h m s ohm
    by (simp add: parse_timestamp_def expect_def r rs cc ofs)
qed

text \<open>
  The date string handed to \<open>git commit --date\<close> means what was printed: for a valid
  date of a year in \<open>[0, 9999]\<close>, an hour, minute and second in range and an offset of
  less than 100 hours, the printed moment reads back as exactly that date, time and offset.
\<close>

lemma parse_timestamp_moment_format:
  assumes "valid_civil c" and "0 \<le> c_year c" and "c_year c \<le> 9999"
    and "0 \<le> hh" "hh \<le> 23" "0 \<le> mm" "mm \<le> 59" "0 \<le> ss" "ss \<le> 59" and "\<bar>off\<bar> < 6000"
  shows "parse_timestamp (moment_format (make_day c) hh mm ss off) = Some (c, hh, mm, ss, off)"
proof -
  have c: "civil_of_day (make_day c) = c" using assms(1) by (rule civil_of_day_make_day)
  show ?thesis using parse_moment_format [of "make_day c" hh mm ss off] assms unfolding c by simp
qed

end
