(* ===== verification/Effects.thy ===== *)
theory Effects
  imports Prelude
begin

text \<open>
  The interface between \<open>src/index.js\<close> and its collaborators: the errors the
  file system and git can raise, the operations the script calls on them (as a record of
  functions over an abstract repository state \<open>'r\<close>), and the console output it
  produces (as a log of events, one constructor per \<open>console\<close> call of the source).
  The script's lemmas are stated for any implementation of the record; \<open>Vcs\<close> gives
  one and proves what it does.
\<close>

datatype vcs_error = WriteError | StagingError | CommitError | PushError

text \<open>
  The operations, each atomic: on failure the state is unchanged (the specification's
  collaborator contract, section 4.4).
  \<^item> \<open>write_file path content\<close>: \<open>jsonfile.writeFile\<close> (line 21);
  \<^item> \<open>git_add path\<close>: \<open>simpleGit().add([path])\<close> (line 22);
  \<^item> \<open>git_commit message date\<close>: \<open>.commit(message, {'--date': date})\<close> (line 22);
  \<^item> \<open>git_push\<close>: \<open>git.push(callback)\<close> (line 120).
\<close>

record 'r vcs_ops =
  write_file :: "js_string \<Rightarrow> js_string \<Rightarrow> 'r \<Rightarrow> vcs_error + 'r"
  git_add :: "js_string \<Rightarrow> 'r \<Rightarrow> vcs_error + 'r"
  git_commit :: "js_string \<Rightarrow> js_string \<Rightarrow> 'r \<Rightarrow> vcs_error + 'r"
  git_push :: "'r \<Rightarrow> vcs_error + 'r"

text \<open>
  Console output. Day numbers stand for the dates the messages print; the exact wording
  of each message is abstracted to its constructor.
\<close>

datatype log_event =
    OptionsHeader
  | InvalidYear int
  | InvalidLevel
  | Generating js_string int
  | Skipping int int
  | Attempting js_string js_string
  | Committed js_string js_string
  | CommitFailed js_string js_string vcs_error
  | FinishedGenerating js_string int
  | Pushing
  | PushFailed vcs_error
  | PushSucceeded
  | ProcessComplete

text \<open>Reading a log: the dates of the attempted, committed and failed commits, in order.\<close>

definition attempted_events :: "log_event list \<Rightarrow> js_string list" where
  "attempted_events lg = [d. Attempting m d \<leftarrow> lg]"

definition committed_events :: "log_event list \<Rightarrow> (js_string \<times> js_string) list" where
  "committed_events lg = [(m, d). Committed m d \<leftarrow> lg]"

definition failed_events :: "log_event list \<Rightarrow> js_string list" where
  "failed_events lg = [d. CommitFailed m d e \<leftarrow> lg]"

definition skipped_events :: "log_event list \<Rightarrow> int list" where
  "skipped_events lg = [t. Skipping t w \<leftarrow> lg]"

definition plan_events :: "log_event list \<Rightarrow> log_event list" where
  "plan_events lg = filter (\<lambda>ev. case ev of Committed m d \<Rightarrow> False | CommitFailed m d e \<Rightarrow> False | _ \<Rightarrow> True) lg"

lemma log_events_append [simp]:
  "attempted_events (a @ b) = attempted_events a @ attempted_events b"
  "committed_events (a @ b) = committed_events a @ committed_events b"
  "failed_events (a @ b) = failed_events a @ failed_events b"
  by (simp_all add: attempted_events_def committed_events_def failed_events_def)

lemma log_events_Nil [simp]:
  "attempted_events [] = []" "committed_events [] = []" "failed_events [] = []"
  by (simp_all add: attempted_events_def committed_events_def failed_events_def)

lemma log_events_Cons [simp]:
  "attempted_events (ev # lg) = (case ev of Attempting m d \<Rightarrow> [d] | _ \<Rightarrow> []) @ attempted_events lg"
  "committed_events (ev # lg) = (case ev of Committed m d \<Rightarrow> [(m, d)] | _ \<Rightarrow> []) @ committed_events lg"
  "failed_events (ev # lg) = (case ev of CommitFailed m d e \<Rightarrow> [d] | _ \<Rightarrow> []) @ failed_events lg"
  by (simp_all add: attempted_events_def committed_events_def failed_events_def split: log_event.splits)

lemma log_events_replicate [simp]:
  "attempted_events (replicate k ev) = concat (replicate k (attempted_events [ev]))"
  "committed_events (replicate k ev) = concat (replicate k (committed_events [ev]))"
  "failed_events (replicate k ev) = concat (replicate k (failed_events [ev]))"
  by (induction k) simp_all

lemma skipped_plan_append [simp]:
  "skipped_events (a @ b) = skipped_events a @ skipped_events b"
  "plan_events (a @ b) = plan_events a @ plan_events b"
  by (simp_all add: skipped_events_def plan_events_def)

lemma skipped_plan_Nil [simp]: "skipped_events [] = []" "plan_events [] = []"
  by (simp_all add: skipped_events_def plan_events_def)

lemma skipped_plan_Cons [simp]:
  "skipped_events (ev # lg) = (case ev of Skipping t w \<Rightarrow> [t] | _ \<Rightarrow> []) @ skipped_events lg"
  "plan_events (ev # lg) = (case ev of Committed m d \<Rightarrow> [] | CommitFailed m d e \<Rightarrow> [] | _ \<Rightarrow> [ev]) @ plan_events lg"
  by (simp_all add: skipped_events_def plan_events_def split: log_event.splits)

end
