(* ===== verification/Vcs.thy ===== *)
theory Vcs
  imports Effects Js_Builtins
begin

text \<open>
  \<open>makeCommitWithDate\<close> (lines 14--27 of \<open>src/index.js\<close>), over any implementation
  of the collaborator interface, and one implementation: a model of the file system and
  of git as far as the script uses them (a work tree holding \<open>data.json\<close>, the index,
  the tree of the last commit, the commit history and the remote's copy of it).
\<close>

section \<open>Writing the marker file and committing\<close>

definition data_path :: js_string where
  "data_path = ''./data.json''"

text \<open>
  \<open>jsonfile.writeFile(path, {date})\<close> writes \<open>JSON.stringify({date}) + "\n"\<close>; the
  date strings the script builds hold no character that JSON escapes.
\<close>

definition marker_json :: "js_string \<Rightarrow> js_string" where
  "marker_json ds =
     ''{'' @ [CHR 0x22] @ ''date'' @ [CHR 0x22] @ '':'' @ [CHR 0x22] @ ds @ [CHR 0x22] @ ''}''
     @ [CHR 0x0A]"

text \<open>
  The \<open>try\<close> block: write the file, stage it, commit it with the explicit date; the
  first failure is caught, logged, and ends the attempt with the effects of the steps
  that succeeded kept.
\<close>

definition makeCommitWithDate ::
  "'r vcs_ops \<Rightarrow> js_string \<Rightarrow> js_string \<Rightarrow> 'r \<times> log_event list \<Rightarrow> 'r \<times> log_event list" where
  "makeCommitWithDate ops dateString message s =
     (let (r, lg) = s; lg1 = lg @ [Attempting message dateString]
      in case write_file ops data_path (marker_json dateString) r of
           Inl e \<Rightarrow> (r, lg1 @ [CommitFailed message dateString e])
         | Inr r1 \<Rightarrow>
             (case git_add ops data_path r1 of
                Inl e \<Rightarrow> (r1, lg1 @ [CommitFailed message dateString e])
              | Inr r2 \<Rightarrow>
                  (case git_commit ops message dateString r2 of
                     Inl e \<Rightarrow> (r2, lg1 @ [CommitFailed message dateString e])
                   | Inr r3 \<Rightarrow> (r3, lg1 @ [Committed message dateString]))))"

section \<open>A repository model\<close>

text \<open>
  Git refuses a commit when it is not run in a repository or when the index equals the
  tree of the last commit (nothing to commit); staging fails outside a repository;
  writing fails when the path is not writable; the push fails when the remote rejects it.
\<close>

record repo =
  is_repo :: bool
  path_writable :: bool
  remote_ok :: bool
  worktree :: "js_string option"
  index :: "js_string option"
  head_tree :: "js_string option"
  history :: "(js_string \<times> js_string) list"
  remote_history :: "(js_string \<times> js_string) list"

definition repo_write :: "js_string \<Rightarrow> js_string \<Rightarrow> repo \<Rightarrow> vcs_error + repo" where
  "repo_write p c r = (if path_writable r then Inr (r\<lparr>worktree := Some c\<rparr>) else Inl WriteError)"

definition repo_add :: "js_string \<Rightarrow> repo \<Rightarrow> vcs_error + repo" where
  "repo_add p r = (if is_repo r then Inr (r\<lparr>index := worktree r\<rparr>) else Inl StagingError)"

definition repo_commit :: "js_string \<Rightarrow> js_string \<Rightarrow> repo \<Rightarrow> vcs_error + repo" where
  "repo_commit msg d r =
     (if \<not> is_repo r \<or> index r = head_tree r then Inl CommitError
      else Inr (r\<lparr>head_tree := index r, history := history r @ [(msg, d)]\<rparr>))"

definition repo_push :: "repo \<Rightarrow> vcs_error + repo" where
  "repo_push r =
     (if is_repo r \<and> remote_ok r then Inr (r\<lparr>remote_history := history r\<rparr>) else Inl PushError)"

definition git_repo :: "repo vcs_ops" where
  "git_repo = \<lparr>write_file = repo_write, git_add = repo_add, git_commit = repo_commit,
               git_push = repo_push\<rparr>"

text \<open>A freshly cloned repository with a writable work tree and an accepting remote.\<close>

definition fresh_repo :: repo where
  "fresh_repo =
     \<lparr>is_repo = True, path_writable = True, remote_ok = True, worktree = None, index = None,
      head_tree = None, history = [], remote_history = []\<rparr>"

section \<open>One attempt logs two events and commits at most once\<close>

lemma makeCommitWithDate_shape:
  "\<exists>r' ev. makeCommitWithDate ops ds msg (r, lg) = (r', lg @ [Attempting msg ds, ev])
      \<and> (ev = Committed msg ds \<or> (\<exists>e. ev = CommitFailed msg ds e))"
  by (auto simp: makeCommitWithDate_def Let_def split: sum.splits)

lemma makeCommitWithDate_git_repo:
  "makeCommitWithDate git_repo ds msg (r, lg) = (r', lg') \<Longrightarrow>
   history r' = history r @ committed_events (drop (length lg) lg')
   \<and> is_repo r' = is_repo r \<and> remote_ok r' = remote_ok r"
  by (auto simp: makeCommitWithDate_def git_repo_def repo_write_def repo_add_def repo_commit_def
           split: sum.splits if_splits)

section \<open>Git commits only when the marker file changed\<close>

lemma makeCommitWithDate_unchanged_marker:
  assumes "is_repo r" "path_writable r" "head_tree r = Some (marker_json ds)"
  shows "makeCommitWithDate git_repo ds msg (r, lg) =
           (r\<lparr>worktree := Some (marker_json ds), index := Some (marker_json ds)\<rparr>,
            lg @ [Attempting msg ds, CommitFailed msg ds CommitError])"
  using assms
  by (simp add: makeCommitWithDate_def git_repo_def repo_write_def repo_add_def repo_commit_def)

lemma makeCommitWithDate_changed_marker:
  assumes "is_repo r" "path_writable r" "head_tree r \<noteq> Some (marker_json ds)"
  shows "makeCommitWithDate git_repo ds msg (r, lg) =
           (r\<lparr>worktree := Some (marker_json ds), index := Some (marker_json ds),
               head_tree := Some (marker_json ds), history := history r @ [(msg, ds)]\<rparr>,
            lg @ [Attempting msg ds, Committed msg ds])"
  using assms
  by (simp add: makeCommitWithDate_def git_repo_def repo_write_def repo_add_def repo_commit_def)

end
