(* ===== verification/Param_Input.thy ===== *)
theory Param_Input
  imports Js_Builtins Effects
begin

text \<open>
  Parameter collection, lines 39--71 of \<open>src/index.js\<close>. The operator's answers are
  the list of lines read by \<open>rl.question\<close>, in order; a prompt that finds no answer
  left is the program still waiting for input, the value \<open>None\<close>. The two
  \<open>while (true)\<close> loops share one shape: read, validate, warn and ask again, and
  are instances of \<open>prompt_loop\<close>. The current year is the value of
  \<open>moment().year()\<close>, fixed for the run; line 46 re-reads it at every answer, which
  differs only when the prompting straddles a New Year.
\<close>

record run_params =
  targetYear :: int
  commitLevel :: js_string
  skippedDays :: "int list"

section \<open>Retry until valid\<close>

fun prompt_loop ::
  "(js_string \<Rightarrow> 'a option) \<Rightarrow> log_event \<Rightarrow> js_string list \<Rightarrow> log_event list
   \<Rightarrow> ('a \<times> js_string list \<times> log_event list) option" where
  "prompt_loop validate warning [] lg = None"
| "prompt_loop validate warning (input # rest) lg =
     (case validate input of
        Some v \<Rightarrow> Some (v, rest, lg)
      | None \<Rightarrow> prompt_loop validate warning rest (lg @ [warning]))"

section \<open>The target year (lines 42--53)\<close>

definition validate_year :: "int \<Rightarrow> js_string \<Rightarrow> int option" where
  "validate_year currentYear yearInput =
     (case js_parseInt (js_trim yearInput) of
        None \<Rightarrow> None
      | Some target \<Rightarrow>
          if target < 2008 \<or> target > currentYear then None else Some target)"

definition ask_year ::
  "int \<Rightarrow> js_string list \<Rightarrow> log_event list \<Rightarrow> (int \<times> js_string list \<times> log_event list) option" where
  "ask_year currentYear = prompt_loop (validate_year currentYear) (InvalidYear currentYear)"

section \<open>The density level (lines 56--65)\<close>

text \<open>The answer is lower-cased, not trimmed, and compared with the three level names.\<close>

definition validate_level :: "js_string \<Rightarrow> js_string option" where
  "validate_level input =
     (let levelInput = js_toLowerCase input
      in if levelInput \<in> set [''low'', ''medium'', ''high''] then Some levelInput else None)"

definition ask_level ::
  "js_string list \<Rightarrow> log_event list \<Rightarrow> (js_string \<times> js_string list \<times> log_event list) option" where
  "ask_level = prompt_loop validate_level InvalidLevel"

section \<open>The skipped week days (lines 68--69)\<close>

text \<open>
  \<open>split(',')\<close>, \<open>parseInt(day.trim(), 10)\<close> on each piece, then the filter
  \<open>!isNaN(day) && day >= 0 && day <= 6\<close>; \<open>NaN\<close> is \<open>None\<close>.
\<close>

definition parse_skip_days :: "js_string \<Rightarrow> int list" where
  "parse_skip_days skipDaysInput =
     map the (filter (\<lambda>day. day \<noteq> None \<and> 0 \<le> the day \<and> the day \<le> 6)
                     (map (\<lambda>day. js_parseInt (js_trim day)) (js_split (CHR '','') skipDaysInput)))"

section \<open>The three prompts in order (lines 39--71)\<close>

text \<open>
  The header, the year loop, the level loop and the single skip-days prompt; the readline
  interface is closed afterwards (no effect in the model).
\<close>

definition collect_params :: "int \<Rightarrow> js_string list \<Rightarrow> (run_params \<times> log_event list) option" where
  "collect_params currentYear inputs =
     (case ask_year currentYear inputs [OptionsHeader] of
        None \<Rightarrow> None
      | Some (y, rest1, lg1) \<Rightarrow>
          (case ask_level rest1 lg1 of
             None \<Rightarrow> None
           | Some (lvl, rest2, lg2) \<Rightarrow>
               (case rest2 of
                  [] \<Rightarrow> None
                | skipDaysInput # _ \<Rightarrow>
                    Some (\<lparr>targetYear = y, commitLevel = lvl,
                            skippedDays = parse_skip_days skipDaysInput\<rparr>, lg2))))"

section \<open>The retry loop returns the first valid answer\<close>

lemma prompt_loop_Some:
  "prompt_loop validate w inputs lg = Some (v, rest, lg') \<longleftrightarrow>
   (\<exists>pre s. inputs = pre @ s # rest \<and> list_all (\<lambda>p. validate p = None) pre
            \<and> validate s = Some v \<and> lg' = lg @ replicate (length pre) w)"
proof (induction inputs arbitrary: lg)
  case Nil
  then show ?case by simp
next
  case (Cons i ins)
  show ?case
  proof (cases "validate i")
    case None
    have "prompt_loop validate w (i # ins) lg = prompt_loop validate w ins (lg @ [w])"
      using None by simp
    also have "\<dots> = Some (v, rest, lg') \<longleftrightarrow>
      (\<exists>pre s. ins = pre @ s # rest \<and> list_all (\<lambda>p. validate p = None) pre
               \<and> validate s = Some v \<and> lg' = (lg @ [w]) @ replicate (length pre) w)"
      by (rule Cons.IH)
    also have "\<dots> \<longleftrightarrow>
      (\<exists>pre s. i # ins = pre @ s # rest \<and> list_all (\<lambda>p. validate p = None) pre
               \<and> validate s = Some v \<and> lg' = lg @ replicate (length pre) w)"
    proof
      assume "\<exists>pre s. ins = pre @ s # rest \<and> list_all (\<lambda>p. validate p = None) pre
               \<and> validate s = Some v \<and> lg' = (lg @ [w]) @ replicate (length pre) w"
      then obtain pre s where "ins = pre @ s # rest" "list_all (\<lambda>p. validate p = None) pre"
          "validate s = Some v" "lg' = (lg @ [w]) @ replicate (length pre) w" by blast
      with None show "\<exists>pre s. i # ins = pre @ s # rest \<and> list_all (\<lambda>p. validate p = None) pre
               \<and> validate s = Some v \<and> lg' = lg @ replicate (length pre) w"
        by (intro exI [of _ "i # pre"] exI [of _ s]) (simp add: replicate_append_same)
    next
      assume "\<exists>pre s. i # ins = pre @ s # rest \<and> list_all (\<lambda>p. validate p = None) pre
               \<and> validate s = Some v \<and> lg' = lg @ replicate (length pre) w"
      then obtain pre s where h: "i # ins = pre @ s # rest" "list_all (\<lambda>p. validate p = None) pre"
          "validate s = Some v" "lg' = lg @ replicate (length pre) w" by blast
      with None obtain pre' where "pre = i # pre'" by (cases pre) auto
      with h show "\<exists>pre s. ins = pre @ s # rest \<and> list_all (\<lambda>p. validate p = None) pre
               \<and> validate s = Some v \<and> lg' = (lg @ [w]) @ replicate (length pre) w"
        by (intro exI [of _ pre'] exI [of _ s]) (simp add: replicate_append_same)
    qed
    finally show ?thesis .
  next
    case (Some u)
    show ?thesis
    proof
      assume "prompt_loop validate w (i # ins) lg = Some (v, rest, lg')"
      with Some show "\<exists>pre s. i # ins = pre @ s # rest \<and> list_all (\<lambda>p. validate p = None) pre
               \<and> validate s = Some v \<and> lg' = lg @ replicate (length pre) w"
        by (intro exI [of _ "[]"] exI [of _ i]) simp
    next
      assume "\<exists>pre s. i # ins = pre @ s # rest \<and> list_all (\<lambda>p. validate p = None) pre
               \<and> validate s = Some v \<and> lg' = lg @ replicate (length pre) w"
      then obtain pre s where h: "i # ins = pre @ s # rest" "list_all (\<lambda>p. validate p = None) pre"
          "validate s = Some v" "lg' = lg @ replicate (length pre) w" by blast
      with Some have "pre = []" by (cases pre) auto
      with h Some show "prompt_loop validate w (i # ins) lg = Some (v, rest, lg')" by simp
    qed
  qed
qed

lemma validate_year_range:
  "validate_year cy s = Some y \<Longrightarrow> 2008 \<le> y \<and> y \<le> cy"
  by (auto simp: validate_year_def split: option.splits if_splits)

lemma js_trim_no_ws: "(\<And>c. c \<in> set s \<Longrightarrow> \<not> js_is_ws c) \<Longrightarrow> js_trim s = s"
proof -
  assume h: "\<And>c. c \<in> set s \<Longrightarrow> \<not> js_is_ws c"
  have "dropWhile js_is_ws s = s" using h by (cases s) auto
  moreover have "dropWhile js_is_ws (rev s) = rev s" using h by (cases "rev s") (auto dest: sym)
  ultimately show ?thesis by (simp add: js_trim_def)
qed

lemma js_trim_int_to_string: "js_trim (js_int_to_string i) = js_int_to_string i"
proof (rule js_trim_no_ws)
  fix c assume "c \<in> set (js_int_to_string i)"
  then have "js_is_digit c \<or> c = CHR ''-''"
    by (auto simp: js_int_to_string_def nat_digits_digits split: if_splits)
  then show "\<not> js_is_ws c" using digit_not_ws_sign by (auto simp: js_is_ws_def)
qed

lemma validate_year_decimal:
  "2008 \<le> y \<Longrightarrow> y \<le> cy \<Longrightarrow> validate_year cy (js_int_to_string y) = Some y"
  by (simp add: validate_year_def js_trim_int_to_string js_parseInt_int_to_string)

section \<open>What a completed collection consists of\<close>

lemma validate_level_names: "validate_level s = Some l \<Longrightarrow> l \<in> set [''low'', ''medium'', ''high'']"
  by (auto simp: validate_level_def Let_def split: if_splits)

lemma collect_params_Some:
  assumes "collect_params cy inputs = Some (p, lg)"
  shows "(\<exists>s. validate_year cy s = Some (targetYear p)) \<and> (\<exists>s. validate_level s = Some (commitLevel p))
         \<and> (\<exists>s. skippedDays p = parse_skip_days s)
         \<and> (\<exists>k1 k2. lg = [OptionsHeader] @ replicate k1 (InvalidYear cy) @ replicate k2 InvalidLevel)"
proof -
  obtain y rest1 lg1 where y: "ask_year cy inputs [OptionsHeader] = Some (y, rest1, lg1)"
    using assms by (auto simp: collect_params_def split: option.splits)
  obtain lvl rest2 lg2 where l: "ask_level rest1 lg1 = Some (lvl, rest2, lg2)"
    using assms y by (auto simp: collect_params_def split: option.splits)
  obtain sd rest3 where r: "rest2 = sd # rest3"
    using assms y l by (auto simp: collect_params_def split: list.splits)
  have p: "p = \<lparr>targetYear = y, commitLevel = lvl, skippedDays = parse_skip_days sd\<rparr>" "lg = lg2"
    using assms y l r by (simp_all add: collect_params_def)
  obtain pre1 s1 where 1: "inputs = pre1 @ s1 # rest1" "list_all (\<lambda>s. validate_year cy s = None) pre1"
      "validate_year cy s1 = Some y" "lg1 = [OptionsHeader] @ replicate (length pre1) (InvalidYear cy)"
    using y unfolding ask_year_def prompt_loop_Some by blast
  obtain pre2 s2 where 2: "rest1 = pre2 @ s2 # rest2" "list_all (\<lambda>s. validate_level s = None) pre2"
      "validate_level s2 = Some lvl" "lg2 = lg1 @ replicate (length pre2) InvalidLevel"
    using l unfolding ask_level_def prompt_loop_Some by blast
  show ?thesis using p 1 2 by auto
qed

section \<open>Properties of the prompts\<close>

text \<open>
  C6. The year prompt returns exactly the first answer that parses to a year in
  \<open>[2008, currentYear]\<close>, with the answers after it left unread, and logs one warning
  for each answer it rejected before.
\<close>

theorem ask_year_first_valid:
  "ask_year cy inputs lg = Some (y, rest, lg') \<longleftrightarrow>
   (\<exists>pre s. inputs = pre @ s # rest \<and> list_all (\<lambda>p. validate_year cy p = None) pre
            \<and> validate_year cy s = Some y \<and> lg' = lg @ replicate (length pre) (InvalidYear cy))"
  unfolding ask_year_def by (rule prompt_loop_Some)

theorem ask_year_first_valid_witness:
  "ask_year 2026 [''1999'', '' 2023''] [] = Some (2023, [], [InvalidYear 2026])"
proof -
  have "validate_year 2026 ''1999'' = None" "validate_year 2026 '' 2023'' = Some 2023"
    by code_simp+
  then show ?thesis
    by (intro ask_year_first_valid [THEN iffD2] exI [of _ "[''1999'']"] exI [of _ "'' 2023''"]) simp
qed

text \<open>
  C7. A year in \<open>[2008, currentYear]\<close> typed in its decimal spelling is accepted at the
  first prompt, without a warning.
\<close>

theorem ask_year_accepts_decimal:
  "2008 \<le> y \<Longrightarrow> y \<le> cy \<Longrightarrow> ask_year cy (js_int_to_string y # rest) lg = Some (y, rest, lg)"
  by (simp add: ask_year_def validate_year_decimal)

theorem ask_year_accepts_decimal_witness:
  "ask_year 2026 (js_int_to_string 2024 # [''low'']) [OptionsHeader] = Some (2024, [''low''], [OptionsHeader])"
  by (rule ask_year_accepts_decimal) simp_all

text \<open>
  C23. The skip-day answer in the form the prompt asks for reads back exactly: for any list
  of week days in \<open>[0, 6]\<close>, typed as their decimal spellings separated by commas, the
  parsing of line 69 returns that list, in order.
\<close>

theorem parse_skip_days_join:
  assumes "\<forall>d\<in>set ds. 0 \<le> d \<and> d \<le> 6"
  shows "parse_skip_days (js_join (CHR '','') (map js_int_to_string ds)) = ds"
proof (cases "ds = []")
  case True
  then show ?thesis by (simp add: parse_skip_days_def js_split_def js_trim_def js_parseInt_def)
next
  case False
  have "js_split (CHR '','') (js_join (CHR '','') (map js_int_to_string ds)) = map js_int_to_string ds"
    using False comma_not_in_int_string by (intro js_split_join) auto
  then show ?thesis using assms
    by (simp add: parse_skip_days_def comp_def js_trim_int_to_string js_parseInt_int_to_string filter_id_conv)
qed

theorem parse_skip_days_join_witness:
  "0 \<le> (0::int) \<and> (0::int) \<le> 6 \<and> 0 \<le> (6::int) \<and> (6::int) \<le> 6
   \<and> parse_skip_days (js_join (CHR '','') (map js_int_to_string [0, 6])) = [0, 6]"
  using parse_skip_days_join [of "[0, 6]"] by simp

end
