(* ===== verification/History.thy ===== *)
theory History
  imports Random_Int Moment_Format Vcs Param_Input
begin

text \<open>
  History synthesis, lines 73--126 of \<open>src/index.js\<close>: the day-by-day traversal of the
  target year with the skip test, the density draw and the inner loop of commits at random
  times, then the single push. The state threaded through the loop is the repository (any
  implementation of the interface of \<open>Effects\<close>), the console log and the random
  source; the cursor is the local day number of \<open>Calendar\<close>.
\<close>

record 'r synth_state =
  st_repo :: 'r
  st_log :: "log_event list"
  st_rng :: rng

definition commitMessage :: js_string where
  "commitMessage = ''Random activity''"

section \<open>One commit (lines 108--113)\<close>

text \<open>
  Three draws in the order the method chain evaluates them (hour, minute, second), the
  timestamp printed by \<open>format()\<close> with the zone's offset at that local time, and one
  call of \<open>makeCommitWithDate\<close>.
\<close>

definition commit_once :: "'r vcs_ops \<Rightarrow> tz \<Rightarrow> int \<Rightarrow> 'r synth_state \<Rightarrow> 'r synth_state" where
  "commit_once ops tz t st =
     (let (hh, g1) = getRandomInt 0 23 (st_rng st);
          (mm, g2) = getRandomInt 0 59 g1;
          (ss, g3) = getRandomInt 0 59 g2;
          commitTime = moment_format t hh mm ss (tz t hh mm ss);
          (r, lg) = makeCommitWithDate ops commitTime commitMessage (st_repo st, st_log st)
      in \<lparr>st_repo = r, st_log = lg, st_rng = g3\<rparr>)"

text \<open>\<open>for (let i = 0; i < numberOfCommitsToday; i++)\<close>, run \<open>n\<close> times.\<close>

fun commit_loop :: "'r vcs_ops \<Rightarrow> tz \<Rightarrow> int \<Rightarrow> nat \<Rightarrow> 'r synth_state \<Rightarrow> 'r synth_state" where
  "commit_loop ops tz t 0 st = st"
| "commit_loop ops tz t (Suc n) st = commit_loop ops tz t n (commit_once ops tz t st)"

section \<open>One day (lines 82--115)\<close>

text \<open>
  A day whose week day is in \<open>skippedDays\<close> only logs the skip notice
  (the \<open>continue\<close>); any other day draws its commit count and runs the inner loop.
  The cursor's advance is the caller's \<open>t + 1\<close>.
\<close>

definition day_step ::
  "'r vcs_ops \<Rightarrow> tz \<Rightarrow> js_string \<Rightarrow> int list \<Rightarrow> int \<Rightarrow> 'r synth_state \<Rightarrow> 'r synth_state" where
  "day_step ops tz lvl skipped t st =
     (let dayOfWeek = week_day t
      in if dayOfWeek \<in> set skipped then st\<lparr>st_log := st_log st @ [Skipping t dayOfWeek]\<rparr>
         else (let (n, g) = commits_for_level lvl (st_rng st)
               in commit_loop ops tz t (nat n) (st\<lparr>st_rng := g\<rparr>)))"

section \<open>The traversal (lines 75--116)\<close>

text \<open>\<open>while (currentDate.isSameOrBefore(endDate, 'day'))\<close> with \<open>add(1, 'day')\<close>.\<close>

function day_loop ::
  "'r vcs_ops \<Rightarrow> tz \<Rightarrow> js_string \<Rightarrow> int list \<Rightarrow> int \<Rightarrow> int \<Rightarrow> 'r synth_state \<Rightarrow> 'r synth_state" where
  "day_loop ops tz lvl skipped endDay t st =
     (if t \<le> endDay then day_loop ops tz lvl skipped endDay (t + 1) (day_step ops tz lvl skipped t st)
      else st)"
  by pat_completeness auto
termination
  by (relation "measure (\<lambda>(ops, tz, lvl, skipped, endDay, t, st). nat (endDay + 1 - t))") auto

text \<open>
  \<open>moment(`${targetYear}-01-01T00:00:00`)\<close> and
  \<open>moment(`${targetYear}-12-31T23:59:59`)\<close>: the first and the last day of the year.
\<close>

definition start_day :: "int \<Rightarrow> int" where
  "start_day y = make_day \<lparr>c_year = y, c_month = 1, c_day = 1\<rparr>"

definition end_day :: "int \<Rightarrow> int" where
  "end_day y = make_day \<lparr>c_year = y, c_month = 12, c_day = 31\<rparr>"

text \<open>The day numbers the traversal visits, first to last.\<close>

definition year_days :: "int \<Rightarrow> int list" where
  "year_days y = [start_day y..end_day y]"

definition synthesize :: "'r vcs_ops \<Rightarrow> tz \<Rightarrow> run_params \<Rightarrow> 'r synth_state \<Rightarrow> 'r synth_state" where
  "synthesize ops tz p st =
     (let y = targetYear p; lvl = commitLevel p;
          st1 = st\<lparr>st_log := st_log st @ [Generating lvl y]\<rparr>;
          st2 = day_loop ops tz lvl (skippedDays p) (end_day y) (start_day y) st1
      in st2\<lparr>st_log := st_log st2 @ [FinishedGenerating lvl y]\<rparr>)"

section \<open>The push (lines 119--126)\<close>

text \<open>
  One push of the current branch; its failure is logged and the process still reports
  completion.
\<close>

definition push_all :: "'r vcs_ops \<Rightarrow> 'r synth_state \<Rightarrow> 'r synth_state" where
  "push_all ops st =
     (let lg = st_log st @ [Pushing]
      in case git_push ops (st_repo st) of
           Inl e \<Rightarrow> st\<lparr>st_log := lg @ [PushFailed e, ProcessComplete]\<rparr>
         | Inr r \<Rightarrow> st\<lparr>st_repo := r, st_log := lg @ [PushSucceeded, ProcessComplete]\<rparr>)"

section \<open>Reading a run\<close>

text \<open>
  A timestamp is stamped on day \<open>t\<close> when it is the printed moment of day \<open>t\<close> at
  some hour, minute and second in range (the specification's invariant that every commit
  lies within its day). A log extension is what a run appends to the console log.
\<close>

definition stamped_on :: "tz \<Rightarrow> int \<Rightarrow> js_string \<Rightarrow> bool" where
  "stamped_on tz t ds \<longleftrightarrow>
     (\<exists>hh mm ss. 0 \<le> hh \<and> hh \<le> 23 \<and> 0 \<le> mm \<and> mm \<le> 59 \<and> 0 \<le> ss \<and> ss \<le> 59
                 \<and> ds = moment_format t hh mm ss (tz t hh mm ss))"

definition log_ext :: "(log_event list \<Rightarrow> bool) \<Rightarrow> 'r synth_state \<Rightarrow> 'r synth_state \<Rightarrow> bool" where
  "log_ext P s s' \<longleftrightarrow> (\<exists>e. st_log s' = st_log s @ e \<and> P e)"

definition git_ext :: "repo synth_state \<Rightarrow> repo synth_state \<Rightarrow> bool" where
  "git_ext s s' \<longleftrightarrow>
     (\<exists>e. st_log s' = st_log s @ e \<and> history (st_repo s') = history (st_repo s) @ committed_events e)
     \<and> is_repo (st_repo s') = is_repo (st_repo s) \<and> remote_ok (st_repo s') = remote_ok (st_repo s)"

text \<open>
  Two runs agree on their plan when they have the same random source and the same log up
  to the outcomes of commit attempts; a log is balanced when each attempt has exactly one
  outcome.
\<close>

definition same_plan :: "'r synth_state \<Rightarrow> 'q synth_state \<Rightarrow> bool" where
  "same_plan s1 s2 \<longleftrightarrow> st_rng s1 = st_rng s2 \<and> plan_events (st_log s1) = plan_events (st_log s2)"

definition outcome_balanced :: "log_event list \<Rightarrow> bool" where
  "outcome_balanced e \<longleftrightarrow> length (committed_events e) + length (failed_events e) = length (attempted_events e)"

declare day_loop.simps [simp del]

section \<open>The traversal visits the days of the target year\<close>

lemma day_loop_fold:
  "day_loop ops tz lvl sk e t st = fold (day_step ops tz lvl sk) [t..e] st"
proof (induction ops tz lvl sk e t st rule: day_loop.induct)
  case (1 ops tz lvl sk e t st)
  show ?case
  proof (cases "t \<le> e")
    case True
    with "1.IH" show ?thesis by (simp add: day_loop.simps [of ops tz lvl sk e t st] upto_rec1)
  next
    case False
    then show ?thesis by (simp add: day_loop.simps [of ops tz lvl sk e t st])
  qed
qed

lemma start_day_eq: "start_day y = day_from_year y"
  by (simp add: start_day_def make_day_def days_before_month_def)

lemma end_day_eq: "end_day y = day_from_year (y + 1) - 1"
proof -
  have "days_before_month (leap_year y) 13 = days_before_month (leap_year y) 12 + 31"
    using days_before_month_Suc [of 12 "leap_year y"] by (simp add: month_days_def)
  then show ?thesis
    using days_before_month_13 [of y] day_from_year_succ [of y]
    by (simp add: end_day_def make_day_def)
qed

lemma year_days_mem: "t \<in> set (year_days y) \<longleftrightarrow> day_from_year y \<le> t \<and> t < day_from_year (y + 1)"
  by (auto simp: year_days_def start_day_eq end_day_eq)

lemma civil_of_day_year: "c_year (civil_of_day t) = year_from_day t"
  by (simp add: civil_of_day_def Let_def split: prod.splits)

lemma year_days_length: "length (year_days y) = nat (days_in_year y)"
  by (simp add: year_days_def start_day_eq end_day_eq day_from_year_succ)

text \<open>
  C2. The day numbers the traversal visits are the dates of the target year, each once:
  decoded to calendar dates they are exactly the valid dates whose year is the target
  year, without repetition, and there are as many as the year has days (366 in a leap
  year, so February 29 is visited when it exists).
\<close>

theorem year_traversal:
  "set (map civil_of_day (year_days y)) = {c. valid_civil c \<and> c_year c = y}
   \<and> distinct (map civil_of_day (year_days y))
   \<and> length (year_days y) = nat (days_in_year y)"
proof (intro conjI)
  show "set (map civil_of_day (year_days y)) = {c. valid_civil c \<and> c_year c = y}"
  proof
    show "set (map civil_of_day (year_days y)) \<subseteq> {c. valid_civil c \<and> c_year c = y}"
      by (auto simp: year_days_mem valid_civil_of_day civil_of_day_year intro: year_from_day_unique)
  next
    show "{c. valid_civil c \<and> c_year c = y} \<subseteq> set (map civil_of_day (year_days y))"
    proof
      fix c assume c: "c \<in> {c. valid_civil c \<and> c_year c = y}"
      then have "make_day c \<in> set (year_days y)"
        using make_day_in_year [of c] by (simp add: year_days_mem)
      moreover have "civil_of_day (make_day c) = c" using c by (simp add: civil_of_day_make_day)
      ultimately show "c \<in> set (map civil_of_day (year_days y))" by (metis image_eqI set_map)
    qed
  qed
next
  have "inj civil_of_day" by (metis injI make_day_civil_of_day)
  then show "distinct (map civil_of_day (year_days y))"
    by (simp add: distinct_map year_days_def inj_on_subset [OF _ subset_UNIV])
next
  show "length (year_days y) = nat (days_in_year y)"
    by (rule year_days_length)
qed

text \<open>
  C1. The \<open>while\<close> loop of lines 81--116 performs the body of one day for each day
  number of the target year, in increasing order from January 1 to December 31, between
  the two console messages of lines 73 and 117: the synthesis is a fold of the day body
  over \<open>year_days\<close>.
\<close>

theorem synthesize_folds_days:
  "synthesize ops tz p st =
     (let st2 = fold (day_step ops tz (commitLevel p) (skippedDays p)) (year_days (targetYear p))
                  (st\<lparr>st_log := st_log st @ [Generating (commitLevel p) (targetYear p)]\<rparr>)
      in st2\<lparr>st_log := st_log st2 @ [FinishedGenerating (commitLevel p) (targetYear p)]\<rparr>)"
  by (simp add: synthesize_def day_loop_fold year_days_def Let_def)

section \<open>What a run appends to the log and to the history\<close>

lemma commit_loop_funpow: "commit_loop ops tz t n st = (commit_once ops tz t ^^ n) st"
  by (induction n arbitrary: st) (simp_all add: funpow_swap1)

lemma commit_once_eq:
  assumes 1: "getRandomInt 0 23 (st_rng st) = (hh, g1)"
    and 2: "getRandomInt 0 59 g1 = (mm, g2)"
    and 3: "getRandomInt 0 59 g2 = (ss, g3)"
    and m: "makeCommitWithDate ops (moment_format t hh mm ss (tz t hh mm ss)) commitMessage (st_repo st, st_log st) = (r', lg')"
  shows "commit_once ops tz t st = \<lparr>st_repo = r', st_log = lg', st_rng = g3\<rparr>"
  by (simp only: commit_once_def Let_def 1 2 3 prod.case m)
lemma commit_once_log:
  "\<exists>ds ev. stamped_on tz t ds
     \<and> st_log (commit_once ops tz t st) = st_log st @ [Attempting commitMessage ds, ev]
     \<and> (ev = Committed commitMessage ds \<or> (\<exists>e. ev = CommitFailed commitMessage ds e))"
proof -
  obtain hh g1 where 1: "getRandomInt 0 23 (st_rng st) = (hh, g1)" by fastforce
  obtain mm g2 where 2: "getRandomInt 0 59 g1 = (mm, g2)" by fastforce
  obtain ss g3 where 3: "getRandomInt 0 59 g2 = (ss, g3)" by fastforce
  define ds where "ds = moment_format t hh mm ss (tz t hh mm ss)"
  obtain r' ev where m: "makeCommitWithDate ops ds commitMessage (st_repo st, st_log st)
      = (r', st_log st @ [Attempting commitMessage ds, ev])"
    and ev: "ev = Committed commitMessage ds \<or> (\<exists>e. ev = CommitFailed commitMessage ds e)"
    using makeCommitWithDate_shape [of ops ds commitMessage "st_repo st" "st_log st"] by (elim exE conjE) (rule that)
  have "0 \<le> hh \<and> hh \<le> 23" "0 \<le> mm \<and> mm \<le> 59" "0 \<le> ss \<and> ss \<le> 59"
    using 1 2 3 by (auto simp: getRandomInt_eq random_scale_bounds)
  then have st: "stamped_on tz t ds" unfolding stamped_on_def ds_def by blast
  have "commit_once ops tz t st = \<lparr>st_repo = r', st_log = st_log st @ [Attempting commitMessage ds, ev], st_rng = g3\<rparr>"
    using 1 2 3 m unfolding ds_def by (rule commit_once_eq)
  then have "st_log (commit_once ops tz t st) = st_log st @ [Attempting commitMessage ds, ev]" by simp
  with st ev show ?thesis by (intro exI [of _ ds] exI [of _ ev]) simp
qed

lemma log_ext_refl: "P [] \<Longrightarrow> log_ext P s s"
  by (auto simp: log_ext_def)

lemma log_ext_trans:
  "(\<And>a b. P a \<Longrightarrow> P b \<Longrightarrow> P (a @ b)) \<Longrightarrow> log_ext P a b \<Longrightarrow> log_ext P b c \<Longrightarrow> log_ext P a c"
  unfolding log_ext_def by (metis append.assoc)

lemma day_step_rtrans:
  assumes once: "\<And>s. week_day t \<notin> set sk \<Longrightarrow> R s (commit_once ops tz t s)"
    and rng: "\<And>s g. R s (s\<lparr>st_rng := g\<rparr>)"
    and skip: "\<And>s. week_day t \<in> set sk \<Longrightarrow> R s (s\<lparr>st_log := st_log s @ [Skipping t (week_day t)]\<rparr>)"
    and refl: "\<And>s. R s s" and trans: "\<And>a b c. R a b \<Longrightarrow> R b c \<Longrightarrow> R a c"
  shows "R st (day_step ops tz lvl sk t st)"
proof (cases "week_day t \<in> set sk")
  case True
  then show ?thesis using skip by (simp add: day_step_def)
next
  case False
  obtain n g where ng: "commits_for_level lvl (st_rng st) = (n, g)" by fastforce
  have "R (st\<lparr>st_rng := g\<rparr>) ((commit_once ops tz t ^^ nat n) (st\<lparr>st_rng := g\<rparr>))"
    using once False refl trans by (intro funpow_rtrans [where R = R]) blast+
  then have "R st ((commit_once ops tz t ^^ nat n) (st\<lparr>st_rng := g\<rparr>))"
    using rng trans by blast
  with False ng show ?thesis by (simp add: day_step_def commit_loop_funpow)
qed

lemma day_loop_rtrans:
  assumes step: "\<And>t s. t0 \<le> t \<Longrightarrow> t \<le> e1 \<Longrightarrow> R s (day_step ops tz lvl sk t s)"
    and refl: "\<And>s. R s s" and trans: "\<And>a b c. R a b \<Longrightarrow> R b c \<Longrightarrow> R a c"
  shows "R st (day_loop ops tz lvl sk e1 t0 st)"
  unfolding day_loop_fold
  by (rule fold_rtrans [where R = R]) (use step refl trans in auto)

lemma log_ext_day_loop:
  assumes once: "\<And>t s. t0 \<le> t \<Longrightarrow> t \<le> e1 \<Longrightarrow> week_day t \<notin> set sk \<Longrightarrow> log_ext P s (commit_once ops tz t s)"
    and nil: "P []" and skip: "\<And>t. P [Skipping t (week_day t)]"
    and app: "\<And>a b. P a \<Longrightarrow> P b \<Longrightarrow> P (a @ b)"
  shows "log_ext P st (day_loop ops tz lvl sk e1 t0 st)"
proof (rule day_loop_rtrans [where R = "log_ext P"])
  fix t s assume "t0 \<le> t" "t \<le> e1"
  then show "log_ext P s (day_step ops tz lvl sk t s)"
    using once nil skip app
    by (intro day_step_rtrans [where R = "log_ext P"])
       (auto simp: log_ext_def intro: log_ext_refl [of P, OF nil] log_ext_trans [of P, OF app])
qed (auto intro: log_ext_refl [of P, OF nil] log_ext_trans [of P, OF app])

lemma commit_once_git_repo:
  "(\<exists>e. st_log (commit_once git_repo tz t s) = st_log s @ e
       \<and> history (st_repo (commit_once git_repo tz t s)) = history (st_repo s) @ committed_events e)
   \<and> is_repo (st_repo (commit_once git_repo tz t s)) = is_repo (st_repo s)
   \<and> remote_ok (st_repo (commit_once git_repo tz t s)) = remote_ok (st_repo s)"
proof -
  obtain hh g1 where 1: "getRandomInt 0 23 (st_rng s) = (hh, g1)" by fastforce
  obtain mm g2 where 2: "getRandomInt 0 59 g1 = (mm, g2)" by fastforce
  obtain ss g3 where 3: "getRandomInt 0 59 g2 = (ss, g3)" by fastforce
  define ds where "ds = moment_format t hh mm ss (tz t hh mm ss)"
  obtain r' ev where m: "makeCommitWithDate git_repo ds commitMessage (st_repo s, st_log s)
      = (r', st_log s @ [Attempting commitMessage ds, ev])"
    using makeCommitWithDate_shape [of git_repo ds commitMessage "st_repo s" "st_log s"]
    by (elim exE conjE) (rule that)
  have h: "history r' = history (st_repo s) @ committed_events [Attempting commitMessage ds, ev]"
      "is_repo r' = is_repo (st_repo s)" "remote_ok r' = remote_ok (st_repo s)"
    using makeCommitWithDate_git_repo [OF m] by simp_all
  have "commit_once git_repo tz t s = \<lparr>st_repo = r', st_log = st_log s @ [Attempting commitMessage ds, ev], st_rng = g3\<rparr>"
    using 1 2 3 m unfolding ds_def by (rule commit_once_eq)
  with h show ?thesis by (intro conjI exI [of _ "[Attempting commitMessage ds, ev]"]) simp_all
qed

lemma commit_loop_attempts_count:
  "\<exists>e. st_log (commit_loop ops tz t n st) = st_log st @ e \<and> length (attempted_events e) = n
       \<and> length (committed_events e) + length (failed_events e) = n"
proof (induction n arbitrary: st)
  case 0
  then show ?case by simp
next
  case (Suc n)
  obtain ds ev where o: "st_log (commit_once ops tz t st) = st_log st @ [Attempting commitMessage ds, ev]"
      and ev: "ev = Committed commitMessage ds \<or> (\<exists>e. ev = CommitFailed commitMessage ds e)"
    using commit_once_log by blast
  obtain e where e: "st_log (commit_loop ops tz t n (commit_once ops tz t st)) = st_log (commit_once ops tz t st) @ e"
      "length (attempted_events e) = n" "length (committed_events e) + length (failed_events e) = n"
    using Suc.IH by blast
  show ?case
    using o e ev by (intro exI [of _ "[Attempting commitMessage ds, ev] @ e"]) auto
qed

text \<open>
  C8. A day whose week day is in the skip list produces no commit: the day only logs its
  skip notice, and the repository and the random source are left as they were.
\<close>

theorem day_step_skipped:
  "week_day t \<in> set sk \<Longrightarrow>
   day_step ops tz lvl sk t st = st\<lparr>st_log := st_log st @ [Skipping t (week_day t)]\<rparr>"
  by (simp add: day_step_def)

theorem day_step_skipped_witness:
  "week_day 19723 \<in> set [1]
   \<and> day_step git_repo (\<lambda>_ _ _ _. 0) ''high'' [1] 19723
        \<lparr>st_repo = fresh_repo, st_log = [], st_rng = \<lparr>rng_seq = (\<lambda>_. 0), rng_pos = 0\<rparr>\<rparr>
      = \<lparr>st_repo = fresh_repo, st_log = [Skipping 19723 1], st_rng = \<lparr>rng_seq = (\<lambda>_. 0), rng_pos = 0\<rparr>\<rparr>"
proof -
  have h: "week_day 19723 \<in> set [1]" by (simp add: week_day_def)
  show ?thesis
    using day_step_skipped [OF h, of git_repo "\<lambda>_ _ _ _. 0" "''high''"
        "\<lparr>st_repo = fresh_repo, st_log = [], st_rng = \<lparr>rng_seq = (\<lambda>_. 0), rng_pos = 0\<rparr>\<rparr>"] h
    by (simp add: week_day_def)
qed

lemma day_loop_stamped:
  "log_ext (\<lambda>e. \<forall>ds\<in>set (attempted_events e).
             \<exists>t. t0 \<le> t \<and> t \<le> e1 \<and> week_day t \<notin> set sk \<and> stamped_on tz t ds)
     st (day_loop ops tz lvl sk e1 t0 st)"
proof (rule log_ext_day_loop)
  fix t s assume t: "t0 \<le> t" "t \<le> e1" "week_day t \<notin> set sk"
  obtain ds ev where o: "st_log (commit_once ops tz t s) = st_log s @ [Attempting commitMessage ds, ev]"
      and ev: "ev = Committed commitMessage ds \<or> (\<exists>e. ev = CommitFailed commitMessage ds e)"
      and d: "stamped_on tz t ds"
    using commit_once_log by blast
  show "log_ext (\<lambda>e. \<forall>ds\<in>set (attempted_events e).
             \<exists>t. t0 \<le> t \<and> t \<le> e1 \<and> week_day t \<notin> set sk \<and> stamped_on tz t ds) s (commit_once ops tz t s)"
    unfolding log_ext_def using o ev d t by (intro exI [of _ "[Attempting commitMessage ds, ev]"]) auto
qed auto

text \<open>
  C9. Every commit the traversal attempts is stamped on a day of the traversed range whose
  week day is not skipped, at an hour in \<open>[0, 23]\<close>, a minute and a second in
  \<open>[0, 59]\<close>, whatever the collaborator does.
\<close>

theorem day_loop_timestamps:
  "\<exists>e. st_log (day_loop ops tz lvl sk e1 t0 st) = st_log st @ e
       \<and> (\<forall>ds\<in>set (attempted_events e).
             \<exists>t. t0 \<le> t \<and> t \<le> e1 \<and> week_day t \<notin> set sk \<and> stamped_on tz t ds)"
  using day_loop_stamped [of t0 e1 sk tz st ops lvl] by (simp add: log_ext_def)

theorem day_loop_timestamps_witness:
  "attempted_events (st_log (day_loop git_repo (\<lambda>_ _ _ _. 60) ''medium'' [] 19723 19723
      \<lparr>st_repo = fresh_repo, st_log = [], st_rng = \<lparr>rng_seq = (\<lambda>_. 0), rng_pos = 0\<rparr>\<rparr>))
     = [''2024-01-01T00:00:00+01:00'']
   \<and> stamped_on (\<lambda>_ _ _ _. 60) 19723 ''2024-01-01T00:00:00+01:00''"
proof -
  let ?st = "\<lparr>st_repo = fresh_repo, st_log = [], st_rng = \<lparr>rng_seq = (\<lambda>_. 0), rng_pos = 0\<rparr>\<rparr>
             :: repo synth_state"
  have run: "attempted_events (st_log (day_loop git_repo (\<lambda>_ _ _ _. 60) ''medium'' [] 19723 19723 ?st))
             = [''2024-01-01T00:00:00+01:00'']"
    by code_simp
  obtain e where e: "st_log (day_loop git_repo (\<lambda>_ _ _ _. 60) ''medium'' [] 19723 19723 ?st) = st_log ?st @ e"
      and all: "\<forall>ds\<in>set (attempted_events e). \<exists>t. 19723 \<le> t \<and> t \<le> 19723
                  \<and> week_day t \<notin> set [] \<and> stamped_on (\<lambda>_ _ _ _. 60) t ds"
    using day_loop_timestamps [of git_repo "\<lambda>_ _ _ _. 60" "''medium''" "[]" 19723 19723 ?st] by blast
  from e run have "attempted_events e = [''2024-01-01T00:00:00+01:00'']" by simp
  with all have "\<exists>t. 19723 \<le> t \<and> t \<le> (19723::int) \<and> stamped_on (\<lambda>_ _ _ _. 60) t ''2024-01-01T00:00:00+01:00''"
    by auto
  then have "stamped_on (\<lambda>_ _ _ _. 60) 19723 ''2024-01-01T00:00:00+01:00''"
    by (metis order_antisym)
  with run show ?thesis by simp
qed

text \<open>
  C10. Continue-on-error for one day: the inner loop makes exactly \<open>n\<close> commit
  attempts whatever the collaborator does, and each attempt is logged as committed or as
  failed, so the successful commits number the attempts minus the failures.
\<close>

theorem commit_loop_attempts:
  "\<exists>e. st_log (commit_loop ops tz t n st) = st_log st @ e \<and> length (attempted_events e) = n
       \<and> length (committed_events e) = n - length (failed_events e)"
  using commit_loop_attempts_count [of ops tz t n st] by auto

lemma git_ext_refl: "git_ext s s"
  unfolding git_ext_def by (intro conjI exI [of _ "[]"]) simp_all

lemma git_ext_trans: "git_ext a b \<Longrightarrow> git_ext b c \<Longrightarrow> git_ext a c"
  unfolding git_ext_def by (metis append.assoc log_events_append(2))

lemma git_ext_log_only: "st_repo s' = st_repo s \<Longrightarrow> st_log s' = st_log s @ e \<Longrightarrow> committed_events e = [] \<Longrightarrow> git_ext s s'"
  unfolding git_ext_def by (intro conjI exI [of _ e]) simp_all

lemma day_loop_git_ext: "git_ext st (day_loop git_repo tz lvl sk e1 t0 st)"
proof (rule day_loop_rtrans [where R = git_ext])
  fix t s
  show "git_ext s (day_step git_repo tz lvl sk t s)"
  proof (rule day_step_rtrans [where R = git_ext])
    fix s' show "git_ext s' (commit_once git_repo tz t s')"
      unfolding git_ext_def by (rule commit_once_git_repo)
  qed (auto intro: git_ext_log_only git_ext_refl git_ext_trans)
qed (auto intro: git_ext_refl git_ext_trans)

text \<open>
  C11. With the git model as collaborator, the commits the traversal adds to the history are
  exactly the commits its log reports as successful, in the same order.
\<close>

theorem day_loop_git_history:
  "\<exists>e. st_log (day_loop git_repo tz lvl sk e1 t0 st) = st_log st @ e
       \<and> history (st_repo (day_loop git_repo tz lvl sk e1 t0 st)) = history (st_repo st) @ committed_events e"
  using day_loop_git_ext [of st tz lvl sk e1 t0] by (simp add: git_ext_def)

section \<open>How many commits a traversal attempts\<close>

lemma day_step_attempts:
  assumes lvl: "level_range lvl = Some (lo, hi)"
  shows "\<exists>e. st_log (day_step ops tz lvl sk t st) = st_log st @ e
           \<and> (if week_day t \<in> set sk then length (attempted_events e) = 0
              else lo \<le> int (length (attempted_events e)) \<and> int (length (attempted_events e)) \<le> hi)"
proof (cases "week_day t \<in> set sk")
  case True
  then show ?thesis by (simp add: day_step_def)
next
  case False
  obtain n g where ng: "commits_for_level lvl (st_rng st) = (n, g)" by fastforce
  have lohi: "0 \<le> lo" "lo \<le> hi" using lvl by (auto simp: level_range_def split: if_splits)
  have "lo \<le> n \<and> n \<le> hi"
    using ng lvl lohi by (auto simp: commits_for_level_table getRandomInt_eq random_scale_bounds)
  moreover obtain e where e: "st_log (commit_loop ops tz t (nat n) (st\<lparr>st_rng := g\<rparr>)) = st_log st @ e"
      "length (attempted_events e) = nat n"
    using commit_loop_attempts_count [of ops tz t "nat n" "st\<lparr>st_rng := g\<rparr>"] by auto
  ultimately show ?thesis using False ng lohi by (simp add: day_step_def)
qed

lemma fold_day_step_attempts:
  assumes lvl: "level_range lvl = Some (lo, hi)"
  shows "\<exists>e. st_log (fold (day_step ops tz lvl sk) xs st) = st_log st @ e
           \<and> lo * int (length (filter (\<lambda>t. week_day t \<notin> set sk) xs)) \<le> int (length (attempted_events e))
           \<and> int (length (attempted_events e)) \<le> hi * int (length (filter (\<lambda>t. week_day t \<notin> set sk) xs))"
proof (induction xs arbitrary: st)
  case Nil
  then show ?case by simp
next
  case (Cons x xs)
  obtain e1 where e1: "st_log (day_step ops tz lvl sk x st) = st_log st @ e1"
      "if week_day x \<in> set sk then length (attempted_events e1) = 0
       else lo \<le> int (length (attempted_events e1)) \<and> int (length (attempted_events e1)) \<le> hi"
    using day_step_attempts [OF lvl] by blast
  obtain e2 where e2: "st_log (fold (day_step ops tz lvl sk) xs (day_step ops tz lvl sk x st))
        = st_log (day_step ops tz lvl sk x st) @ e2"
      "lo * int (length (filter (\<lambda>t. week_day t \<notin> set sk) xs)) \<le> int (length (attempted_events e2))"
      "int (length (attempted_events e2)) \<le> hi * int (length (filter (\<lambda>t. week_day t \<notin> set sk) xs))"
    using Cons.IH by blast
  show ?case
    using e1 e2 by (intro exI [of _ "e1 @ e2"]) (auto simp: algebra_simps split: if_splits)
qed

section \<open>Coinciding timestamps lose commits\<close>

lemma commit_once_zero_draws:
  assumes "rng_seq (st_rng st) = (\<lambda>_. 0)"
  shows "commit_once ops tz t st =
    (case makeCommitWithDate ops (moment_format t 0 0 0 (tz t 0 0 0)) commitMessage (st_repo st, st_log st) of
       (r, lg) \<Rightarrow> \<lparr>st_repo = r, st_log = lg,
                   st_rng = (st_rng st)\<lparr>rng_pos := Suc (Suc (Suc (rng_pos (st_rng st))))\<rparr>\<rparr>)"
proof -
  let ?g = "st_rng st"
  have z: "random_scale 0 23 0 = 0" "random_scale 0 59 0 = 0" by (simp_all add: random_scale_def)
  have 1: "getRandomInt 0 23 ?g = (0, ?g\<lparr>rng_pos := Suc (rng_pos ?g)\<rparr>)"
    using assms z by (simp add: getRandomInt_eq)
  have 2: "getRandomInt 0 59 (?g\<lparr>rng_pos := Suc (rng_pos ?g)\<rparr>) = (0, ?g\<lparr>rng_pos := Suc (Suc (rng_pos ?g))\<rparr>)"
    using assms z by (simp add: getRandomInt_eq)
  have 3: "getRandomInt 0 59 (?g\<lparr>rng_pos := Suc (Suc (rng_pos ?g))\<rparr>) = (0, ?g\<lparr>rng_pos := Suc (Suc (Suc (rng_pos ?g)))\<rparr>)"
    using assms z by (simp add: getRandomInt_eq)
  obtain r lg where m: "makeCommitWithDate ops (moment_format t 0 0 0 (tz t 0 0 0)) commitMessage (st_repo st, st_log st) = (r, lg)"
    by fastforce
  show ?thesis using commit_once_eq [where st = st and ops = ops and tz = tz and t = t, OF 1 2 3 m] m by simp
qed

text \<open>
  C12. The marker file carries only the timestamp, so when two consecutive commits of a
  day draw the same time, the second write changes nothing and git has nothing to commit.
  With every draw of \<open>Math.random()\<close> equal to 0 a high-density day attempts three
  commits at midnight and creates one: fewer than the level's minimum of three.
\<close>

theorem high_day_duplicate_timestamps:
  assumes "week_day t \<notin> set sk" and "rng_seq g = (\<lambda>_. 0)"
  shows "fst (commits_for_level ''high'' g) = 3
    \<and> length (attempted_events (st_log (day_step git_repo tz ''high'' sk t \<lparr>st_repo = fresh_repo, st_log = [], st_rng = g\<rparr>))) = 3
    \<and> length (history (st_repo (day_step git_repo tz ''high'' sk t \<lparr>st_repo = fresh_repo, st_log = [], st_rng = g\<rparr>))) = 1"
proof -
  let ?ds = "moment_format t 0 0 0 (tz t 0 0 0)" and ?m = "marker_json (moment_format t 0 0 0 (tz t 0 0 0))"
  have c: "commits_for_level ''high'' g = (3, g\<lparr>rng_pos := Suc (rng_pos g)\<rparr>)"
    using assms(2) by (simp add: commits_for_level_def getRandomInt_eq random_scale_def)
  define r1 where "r1 = fresh_repo\<lparr>worktree := Some ?m, index := Some ?m, head_tree := Some ?m,
                                     history := [(commitMessage, ?ds)]\<rparr>"
  define r2 where "r2 = r1\<lparr>worktree := Some ?m, index := Some ?m\<rparr>"
  have m1: "makeCommitWithDate git_repo ?ds commitMessage (fresh_repo, []) = (r1, [Attempting commitMessage ?ds, Committed commitMessage ?ds])"
    using makeCommitWithDate_changed_marker [of fresh_repo ?ds commitMessage "[]"] by (simp add: fresh_repo_def r1_def)
  have m2: "makeCommitWithDate git_repo ?ds commitMessage (r1, lg) = (r2, lg @ [Attempting commitMessage ?ds, CommitFailed commitMessage ?ds CommitError])" for lg
    using makeCommitWithDate_unchanged_marker [of r1 ?ds commitMessage lg] by (simp add: fresh_repo_def r1_def r2_def)
  have m3: "makeCommitWithDate git_repo ?ds commitMessage (r2, lg) = (r2, lg @ [Attempting commitMessage ?ds, CommitFailed commitMessage ?ds CommitError])" for lg
    using makeCommitWithDate_unchanged_marker [of r2 ?ds commitMessage lg] by (simp add: fresh_repo_def r1_def r2_def)
  have "day_step git_repo tz ''high'' sk t \<lparr>st_repo = fresh_repo, st_log = [], st_rng = g\<rparr>
      = commit_once git_repo tz t (commit_once git_repo tz t (commit_once git_repo tz t
           \<lparr>st_repo = fresh_repo, st_log = [], st_rng = g\<lparr>rng_pos := Suc (rng_pos g)\<rparr>\<rparr>))"
    using assms(1) c by (simp add: day_step_def numeral_3_eq_3)
  also have "\<dots> = \<lparr>st_repo = r2, st_log = [Attempting commitMessage ?ds, Committed commitMessage ?ds,
        Attempting commitMessage ?ds, CommitFailed commitMessage ?ds CommitError,
        Attempting commitMessage ?ds, CommitFailed commitMessage ?ds CommitError],
        st_rng = g\<lparr>rng_pos := rng_pos g + 10\<rparr>\<rparr>"
    using assms(2) by (simp add: commit_once_zero_draws m1 m2 m3)
  finally show ?thesis using c by (simp add: r1_def r2_def fresh_repo_def)
qed

theorem high_day_duplicate_timestamps_witness:
  "fst (commits_for_level ''high'' \<lparr>rng_seq = (\<lambda>_. 0), rng_pos = 0\<rparr>) = 3
   \<and> length (history (st_repo (day_step git_repo (\<lambda>_ _ _ _. 0) ''high'' [] 19723
        \<lparr>st_repo = fresh_repo, st_log = [], st_rng = \<lparr>rng_seq = (\<lambda>_. 0), rng_pos = 0\<rparr>\<rparr>))) = 1"
  using high_day_duplicate_timestamps [of 19723 "[]" "\<lparr>rng_seq = (\<lambda>_. 0), rng_pos = 0\<rparr>" "\<lambda>_ _ _ _. 0"]
  by simp

section \<open>Synthesis and push as wholes\<close>

lemma synthesize_log:
  "\<exists>e. st_log (synthesize ops tz p st)
         = st_log st @ [Generating (commitLevel p) (targetYear p)] @ e @ [FinishedGenerating (commitLevel p) (targetYear p)]
       \<and> Pushing \<notin> set e"
proof -
  let ?P = "\<lambda>e. Pushing \<notin> set e"
  let ?st1 = "st\<lparr>st_log := st_log st @ [Generating (commitLevel p) (targetYear p)]\<rparr>"
  have "log_ext ?P ?st1 (day_loop ops tz (commitLevel p) (skippedDays p) (end_day (targetYear p)) (start_day (targetYear p)) ?st1)"
  proof (rule log_ext_day_loop)
    fix t s
    obtain ds ev where o: "st_log (commit_once ops tz t s) = st_log s @ [Attempting commitMessage ds, ev]"
        and ev: "ev = Committed commitMessage ds \<or> (\<exists>e. ev = CommitFailed commitMessage ds e)"
      using commit_once_log by blast
    show "log_ext ?P s (commit_once ops tz t s)"
      unfolding log_ext_def using o ev by (intro exI [of _ "[Attempting commitMessage ds, ev]"]) auto
  qed auto
  then show ?thesis by (auto simp: log_ext_def synthesize_def Let_def)
qed

lemma push_all_log:
  "\<exists>res. st_log (push_all ops st) = st_log st @ [Pushing, res, ProcessComplete]
     \<and> (res = PushSucceeded \<or> (\<exists>e. res = PushFailed e))"
  by (auto simp: push_all_def Let_def split: sum.splits)

lemma synthesize_git:
  "git_ext st (synthesize git_repo tz p st)"
proof -
  let ?st1 = "st\<lparr>st_log := st_log st @ [Generating (commitLevel p) (targetYear p)]\<rparr>"
  have "git_ext st ?st1" by (rule git_ext_log_only [where e = "[Generating (commitLevel p) (targetYear p)]"]) simp_all
  moreover have "git_ext ?st1 (day_loop git_repo tz (commitLevel p) (skippedDays p) (end_day (targetYear p)) (start_day (targetYear p)) ?st1)"
    by (rule day_loop_git_ext)
  ultimately have "git_ext st (day_loop git_repo tz (commitLevel p) (skippedDays p) (end_day (targetYear p)) (start_day (targetYear p)) ?st1)"
    by (rule git_ext_trans)
  moreover have "git_ext (day_loop git_repo tz (commitLevel p) (skippedDays p) (end_day (targetYear p)) (start_day (targetYear p)) ?st1) (synthesize git_repo tz p st)"
    unfolding synthesize_def Let_def by (rule git_ext_log_only [where e = "[FinishedGenerating (commitLevel p) (targetYear p)]"]) simp_all
  ultimately show ?thesis by (rule git_ext_trans)
qed

lemma synthesize_attempts:
  assumes "level_range (commitLevel p) = Some (lo, hi)"
  shows "\<exists>e. st_log (synthesize ops tz p st)
              = st_log st @ [Generating (commitLevel p) (targetYear p)] @ e @ [FinishedGenerating (commitLevel p) (targetYear p)]
         \<and> lo * int (length (filter (\<lambda>t. week_day t \<notin> set (skippedDays p)) (year_days (targetYear p)))) \<le> int (length (attempted_events e))
         \<and> int (length (attempted_events e)) \<le> hi * int (length (filter (\<lambda>t. week_day t \<notin> set (skippedDays p)) (year_days (targetYear p))))"
proof -
  let ?st1 = "st\<lparr>st_log := st_log st @ [Generating (commitLevel p) (targetYear p)]\<rparr>"
  obtain e where "st_log (fold (day_step ops tz (commitLevel p) (skippedDays p)) (year_days (targetYear p)) ?st1) = st_log ?st1 @ e"
     "lo * int (length (filter (\<lambda>t. week_day t \<notin> set (skippedDays p)) (year_days (targetYear p)))) \<le> int (length (attempted_events e))"
     "int (length (attempted_events e)) \<le> hi * int (length (filter (\<lambda>t. week_day t \<notin> set (skippedDays p)) (year_days (targetYear p))))"
    using fold_day_step_attempts [OF assms] by blast
  then show ?thesis by (intro exI [of _ e]) (simp add: synthesize_def day_loop_fold year_days_def Let_def)
qed

section \<open>Skips, outcomes and the collaborator\<close>

lemma commit_once_same_plan:
  assumes "same_plan s1 s2"
  shows "same_plan (commit_once ops1 tz t s1) (commit_once ops2 tz t s2)"
proof -
  obtain hh g1 where 1: "getRandomInt 0 23 (st_rng s1) = (hh, g1)" by fastforce
  obtain mm g2 where 2: "getRandomInt 0 59 g1 = (mm, g2)" by fastforce
  obtain ss g3 where 3: "getRandomInt 0 59 g2 = (ss, g3)" by fastforce
  define ds where "ds = moment_format t hh mm ss (tz t hh mm ss)"
  have r: "st_rng s2 = st_rng s1" using assms by (simp add: same_plan_def)
  obtain r1 ev1 where m1: "makeCommitWithDate ops1 ds commitMessage (st_repo s1, st_log s1)
      = (r1, st_log s1 @ [Attempting commitMessage ds, ev1])"
    and e1: "ev1 = Committed commitMessage ds \<or> (\<exists>e. ev1 = CommitFailed commitMessage ds e)"
    using makeCommitWithDate_shape [of ops1 ds commitMessage "st_repo s1" "st_log s1"] by (elim exE conjE) (rule that)
  obtain r2 ev2 where m2: "makeCommitWithDate ops2 ds commitMessage (st_repo s2, st_log s2)
      = (r2, st_log s2 @ [Attempting commitMessage ds, ev2])"
    and e2: "ev2 = Committed commitMessage ds \<or> (\<exists>e. ev2 = CommitFailed commitMessage ds e)"
    using makeCommitWithDate_shape [of ops2 ds commitMessage "st_repo s2" "st_log s2"] by (elim exE conjE) (rule that)
  have c1: "commit_once ops1 tz t s1 = \<lparr>st_repo = r1, st_log = st_log s1 @ [Attempting commitMessage ds, ev1], st_rng = g3\<rparr>"
    using 1 2 3 m1 unfolding ds_def by (rule commit_once_eq)
  have c2: "commit_once ops2 tz t s2 = \<lparr>st_repo = r2, st_log = st_log s2 @ [Attempting commitMessage ds, ev2], st_rng = g3\<rparr>"
    using 1 [folded r] 2 3 m2 unfolding ds_def by (rule commit_once_eq)
  show ?thesis using assms e1 e2 unfolding c1 c2 same_plan_def by auto
qed

lemma commit_loop_same_plan:
  "same_plan s1 s2 \<Longrightarrow> same_plan (commit_loop ops1 tz t n s1) (commit_loop ops2 tz t n s2)"
  by (induction n arbitrary: s1 s2) (simp_all add: commit_once_same_plan)

lemma day_step_same_plan:
  assumes "same_plan s1 s2"
  shows "same_plan (day_step ops1 tz lvl sk t s1) (day_step ops2 tz lvl sk t s2)"
proof (cases "week_day t \<in> set sk")
  case True
  then show ?thesis using assms by (simp add: day_step_def same_plan_def)
next
  case False
  obtain n g where ng: "commits_for_level lvl (st_rng s1) = (n, g)" by fastforce
  have "st_rng s2 = st_rng s1" using assms by (simp add: same_plan_def)
  then have "same_plan (s1\<lparr>st_rng := g\<rparr>) (s2\<lparr>st_rng := g\<rparr>)" using assms by (simp add: same_plan_def)
  then have "same_plan (commit_loop ops1 tz t (nat n) (s1\<lparr>st_rng := g\<rparr>)) (commit_loop ops2 tz t (nat n) (s2\<lparr>st_rng := g\<rparr>))"
    by (rule commit_loop_same_plan)
  then show ?thesis using False ng \<open>st_rng s2 = st_rng s1\<close> by (simp add: day_step_def)
qed

lemma fold_day_step_same_plan:
  "same_plan s1 s2 \<Longrightarrow> same_plan (fold (day_step ops1 tz lvl sk) xs s1) (fold (day_step ops2 tz lvl sk) xs s2)"
  by (induction xs arbitrary: s1 s2) (simp_all add: day_step_same_plan)

lemma commit_loop_no_skips:
  "log_ext (\<lambda>e. skipped_events e = [] \<and> outcome_balanced e) st (commit_loop ops tz t n st)"
  unfolding commit_loop_funpow
proof (rule funpow_rtrans [where R = "log_ext (\<lambda>e. skipped_events e = [] \<and> outcome_balanced e)"])
  fix s
  obtain ds ev where o: "st_log (commit_once ops tz t s) = st_log s @ [Attempting commitMessage ds, ev]"
      and ev: "ev = Committed commitMessage ds \<or> (\<exists>e. ev = CommitFailed commitMessage ds e)"
    using commit_once_log by blast
  show "log_ext (\<lambda>e. skipped_events e = [] \<and> outcome_balanced e) s (commit_once ops tz t s)"
    unfolding log_ext_def outcome_balanced_def using o ev
    by (intro exI [of _ "[Attempting commitMessage ds, ev]"]) auto
qed (auto intro: log_ext_refl log_ext_trans simp: outcome_balanced_def)

lemma day_step_skips:
  "\<exists>e. st_log (day_step ops tz lvl sk t st) = st_log st @ e
       \<and> skipped_events e = (if week_day t \<in> set sk then [t] else []) \<and> outcome_balanced e"
proof (cases "week_day t \<in> set sk")
  case True
  then show ?thesis by (simp add: day_step_def outcome_balanced_def)
next
  case False
  obtain n g where ng: "commits_for_level lvl (st_rng st) = (n, g)" by fastforce
  obtain e where "st_log (commit_loop ops tz t (nat n) (st\<lparr>st_rng := g\<rparr>)) = st_log st @ e"
      "skipped_events e = []" "outcome_balanced e"
    using commit_loop_no_skips [of "st\<lparr>st_rng := g\<rparr>" ops tz t "nat n"] by (auto simp: log_ext_def)
  then show ?thesis using False ng by (simp add: day_step_def)
qed

lemma fold_day_step_skips:
  "\<exists>e. st_log (fold (day_step ops tz lvl sk) xs st) = st_log st @ e
       \<and> skipped_events e = filter (\<lambda>t. week_day t \<in> set sk) xs \<and> outcome_balanced e"
proof (induction xs arbitrary: st)
  case Nil
  then show ?case by (simp add: outcome_balanced_def)
next
  case (Cons x xs)
  obtain e1 where e1: "st_log (day_step ops tz lvl sk x st) = st_log st @ e1"
      "skipped_events e1 = (if week_day x \<in> set sk then [x] else [])" "outcome_balanced e1"
    using day_step_skips by blast
  obtain e2 where e2: "st_log (fold (day_step ops tz lvl sk) xs (day_step ops tz lvl sk x st))
        = st_log (day_step ops tz lvl sk x st) @ e2"
      "skipped_events e2 = filter (\<lambda>t. week_day t \<in> set sk) xs" "outcome_balanced e2"
    using Cons.IH by blast
  show ?case using e1 e2 by (intro exI [of _ "e1 @ e2"]) (simp add: outcome_balanced_def)
qed

lemma synthesize_skips:
  "\<exists>e. st_log (synthesize ops tz p st)
         = st_log st @ [Generating (commitLevel p) (targetYear p)] @ e @ [FinishedGenerating (commitLevel p) (targetYear p)]
       \<and> skipped_events e = filter (\<lambda>t. week_day t \<in> set (skippedDays p)) (year_days (targetYear p))
       \<and> outcome_balanced e"
  using fold_day_step_skips [of ops tz "commitLevel p" "skippedDays p" "year_days (targetYear p)"
      "st\<lparr>st_log := st_log st @ [Generating (commitLevel p) (targetYear p)]\<rparr>"]
  by (auto simp: synthesize_def day_loop_fold year_days_def Let_def)

text \<open>
  C17. A run logs one skip notice for each day of the target year whose week day is
  skipped, in calendar order, and no other.
\<close>

theorem synthesize_skip_notices:
  "\<exists>e. st_log (synthesize ops tz p st)
         = st_log st @ [Generating (commitLevel p) (targetYear p)] @ e @ [FinishedGenerating (commitLevel p) (targetYear p)]
       \<and> skipped_events e = filter (\<lambda>t. week_day t \<in> set (skippedDays p)) (year_days (targetYear p))"
  using synthesize_skips by blast

text \<open>
  C18. Continue-on-error over a whole run: every attempt is followed by exactly one
  outcome, so the successful commits are the attempts minus the failures.
\<close>

theorem synthesize_outcomes_balance:
  "\<exists>e. st_log (synthesize ops tz p st)
         = st_log st @ [Generating (commitLevel p) (targetYear p)] @ e @ [FinishedGenerating (commitLevel p) (targetYear p)]
       \<and> length (committed_events e) = length (attempted_events e) - length (failed_events e)"
  using synthesize_skips [of ops tz p st] by (auto simp: outcome_balanced_def)

text \<open>
  C19. The collaborator's failures do not change what a run attempts: from the same random
  source, two runs with any two collaborators visit the same days, draw the same numbers,
  attempt the same timestamps and log the same notices; they differ only in the outcome of
  each attempt.
\<close>

theorem synthesize_collaborator_independent:
  assumes "st_rng s1 = st_rng s2" and "plan_events (st_log s1) = plan_events (st_log s2)"
  shows "st_rng (synthesize ops1 tz p s1) = st_rng (synthesize ops2 tz p s2)
         \<and> plan_events (st_log (synthesize ops1 tz p s1)) = plan_events (st_log (synthesize ops2 tz p s2))"
proof -
  let ?y = "targetYear p" and ?l = "commitLevel p"
  have "same_plan (s1\<lparr>st_log := st_log s1 @ [Generating ?l ?y]\<rparr>) (s2\<lparr>st_log := st_log s2 @ [Generating ?l ?y]\<rparr>)"
    using assms by (simp add: same_plan_def)
  then have "same_plan (day_loop ops1 tz ?l (skippedDays p) (end_day ?y) (start_day ?y) (s1\<lparr>st_log := st_log s1 @ [Generating ?l ?y]\<rparr>))
                       (day_loop ops2 tz ?l (skippedDays p) (end_day ?y) (start_day ?y) (s2\<lparr>st_log := st_log s2 @ [Generating ?l ?y]\<rparr>))"
    unfolding day_loop_fold by (rule fold_day_step_same_plan)
  then show ?thesis by (simp add: synthesize_def Let_def same_plan_def)
qed


theorem synthesize_collaborator_independent_witness:
  "st_rng \<lparr>st_repo = fresh_repo, st_log = [], st_rng = \<lparr>rng_seq = \<lambda>_. 0, rng_pos = 0\<rparr>\<rparr>
     = st_rng \<lparr>st_repo = fresh_repo\<lparr>is_repo := False\<rparr>, st_log = [], st_rng = \<lparr>rng_seq = \<lambda>_. 0, rng_pos = 0\<rparr>\<rparr>
   \<and> plan_events (st_log (synthesize git_repo (\<lambda>_ _ _ _. 0) \<lparr>targetYear = 2024, commitLevel = ''high'', skippedDays = []\<rparr>
         \<lparr>st_repo = fresh_repo, st_log = [], st_rng = \<lparr>rng_seq = \<lambda>_. 0, rng_pos = 0\<rparr>\<rparr>))
     = plan_events (st_log (synthesize git_repo (\<lambda>_ _ _ _. 0) \<lparr>targetYear = 2024, commitLevel = ''high'', skippedDays = []\<rparr>
         \<lparr>st_repo = fresh_repo\<lparr>is_repo := False\<rparr>, st_log = [], st_rng = \<lparr>rng_seq = \<lambda>_. 0, rng_pos = 0\<rparr>\<rparr>))"
  using synthesize_collaborator_independent
    [of "\<lparr>st_repo = fresh_repo, st_log = [], st_rng = \<lparr>rng_seq = \<lambda>_. 0, rng_pos = 0\<rparr>\<rparr>"
        "\<lparr>st_repo = fresh_repo\<lparr>is_repo := False\<rparr>, st_log = [], st_rng = \<lparr>rng_seq = \<lambda>_. 0, rng_pos = 0\<rparr>\<rparr>"
        git_repo "\<lambda>_ _ _ _. 0" "\<lparr>targetYear = 2024, commitLevel = ''high'', skippedDays = []\<rparr>" git_repo]
  by simp

text \<open>
  C20. The skip test of line 85 applied to the cursor of a calendar date: the date is
  skipped, with its notice, exactly when its week day by the calendar formula (0 = Sunday)
  is in \<open>skippedDays\<close>; otherwise the day runs as if nothing were skipped.
\<close>

theorem day_step_calendar_skip:
  assumes "1 \<le> c_month c" and "c_month c \<le> 12"
  shows "day_step ops tz lvl sk (make_day c) st =
           (if sakamoto_week_day c \<in> set sk
            then st\<lparr>st_log := st_log st @ [Skipping (make_day c) (sakamoto_week_day c)]\<rparr>
            else day_step ops tz lvl [] (make_day c) st)"
  using week_day_sakamoto [OF assms] by (simp add: day_step_def)

theorem day_step_calendar_skip_witness:
  "day_step git_repo (\<lambda>_ _ _ _. 0) ''high'' [4] (make_day \<lparr>c_year = 2024, c_month = 2, c_day = 29\<rparr>)
     \<lparr>st_repo = fresh_repo, st_log = [], st_rng = \<lparr>rng_seq = \<lambda>_. 0, rng_pos = 0\<rparr>\<rparr>
   = \<lparr>st_repo = fresh_repo, st_log = [Skipping (make_day \<lparr>c_year = 2024, c_month = 2, c_day = 29\<rparr>) 4],
      st_rng = \<lparr>rng_seq = \<lambda>_. 0, rng_pos = 0\<rparr>\<rparr>"
proof -
  have s: "sakamoto_week_day \<lparr>c_year = 2024, c_month = 2, c_day = 29\<rparr> = 4"
    by (simp add: sakamoto_week_day_def)
  show ?thesis
    using day_step_calendar_skip [of "\<lparr>c_year = 2024, c_month = 2, c_day = 29\<rparr>" git_repo "\<lambda>_ _ _ _. 0" "''high''" "[4]"
        "\<lparr>st_repo = fresh_repo, st_log = [], st_rng = \<lparr>rng_seq = \<lambda>_. 0, rng_pos = 0\<rparr>\<rparr>"]
    unfolding s by simp
qed

section \<open>The attempted timestamps read back\<close>

lemma synthesize_stamped:
  "\<exists>e. st_log (synthesize ops tz p st)
         = st_log st @ [Generating (commitLevel p) (targetYear p)] @ e @ [FinishedGenerating (commitLevel p) (targetYear p)]
       \<and> (\<forall>ds\<in>set (attempted_events e). \<exists>t. t \<in> set (year_days (targetYear p))
             \<and> week_day t \<notin> set (skippedDays p) \<and> stamped_on tz t ds)"
proof -
  let ?st1 = "st\<lparr>st_log := st_log st @ [Generating (commitLevel p) (targetYear p)]\<rparr>"
  obtain e where e: "st_log (day_loop ops tz (commitLevel p) (skippedDays p) (end_day (targetYear p)) (start_day (targetYear p)) ?st1)
        = st_log ?st1 @ e"
      and all: "\<forall>ds\<in>set (attempted_events e). \<exists>t. start_day (targetYear p) \<le> t \<and> t \<le> end_day (targetYear p)
                  \<and> week_day t \<notin> set (skippedDays p) \<and> stamped_on tz t ds"
    using day_loop_stamped [of "start_day (targetYear p)" "end_day (targetYear p)" "skippedDays p" tz ?st1 ops "commitLevel p"]
    unfolding log_ext_def by blast
  show ?thesis using e all by (intro exI [of _ e]) (auto simp: synthesize_def Let_def year_days_def)
qed

lemma stamped_on_decodes:
  assumes "stamped_on tz t ds" and "t \<in> set (year_days y)" and "0 \<le> y" and "y \<le> 9999"
    and "\<And>hh mm ss. \<bar>tz t hh mm ss\<bar> < 6000"
  shows "\<exists>c hh mm ss off. parse_timestamp ds = Some (c, hh, mm, ss, off) \<and> valid_civil c \<and> c_year c = y
           \<and> make_day c = t \<and> 0 \<le> hh \<and> hh \<le> 23 \<and> 0 \<le> mm \<and> mm \<le> 59 \<and> 0 \<le> ss \<and> ss \<le> 59"
proof -
  obtain hh mm ss where r: "0 \<le> hh" "hh \<le> 23" "0 \<le> mm" "mm \<le> 59" "0 \<le> ss" "ss \<le> 59"
      and ds: "ds = moment_format t hh mm ss (tz t hh mm ss)"
    using assms(1) unfolding stamped_on_def by blast
  have yr: "c_year (civil_of_day t) = y"
    using assms(2) unfolding civil_of_day_year year_days_mem by (intro year_from_day_unique) simp_all
  have "parse_timestamp ds = Some (civil_of_day t, hh, mm, ss, tz t hh mm ss)"
    unfolding ds using yr assms(3,4,5) r by (intro parse_moment_format) simp_all
  then show ?thesis using r yr valid_civil_of_day [of t] make_day_civil_of_day [of t] by blast
qed

text \<open>
  C21. The date string of each commit (lines 108--113) means what was drawn, in the
  source's order: for a valid date of a year in \<open>[0, 9999]\<close> and offsets under 100
  hours, the timestamp the commit attempt carries reads back as that date with the first
  draw as the hour, the second as the minute and the third as the second, and the random
  source moves past exactly those three draws.
\<close>

theorem commit_once_timestamp:
  assumes "valid_civil c" and "0 \<le> c_year c" and "c_year c \<le> 9999"
    and "\<forall>h m s. \<bar>tz (make_day c) h m s\<bar> < 6000"
  shows "let (hh, g1) = getRandomInt 0 23 (st_rng st); (mm, g2) = getRandomInt 0 59 g1;
             (ss, g3) = getRandomInt 0 59 g2
         in \<exists>ds ev. st_log (commit_once ops tz (make_day c) st) = st_log st @ [Attempting commitMessage ds, ev]
              \<and> parse_timestamp ds = Some (c, hh, mm, ss, tz (make_day c) hh mm ss)
              \<and> st_rng (commit_once ops tz (make_day c) st) = g3"
proof -
  obtain hh g1 where 1: "getRandomInt 0 23 (st_rng st) = (hh, g1)" by fastforce
  obtain mm g2 where 2: "getRandomInt 0 59 g1 = (mm, g2)" by fastforce
  obtain ss g3 where 3: "getRandomInt 0 59 g2 = (ss, g3)" by fastforce
  define ds where "ds = moment_format (make_day c) hh mm ss (tz (make_day c) hh mm ss)"
  obtain r' ev where m: "makeCommitWithDate ops ds commitMessage (st_repo st, st_log st)
      = (r', st_log st @ [Attempting commitMessage ds, ev])"
    using makeCommitWithDate_shape [of ops ds commitMessage "st_repo st" "st_log st"] by (elim exE conjE) (rule that)
  have c: "commit_once ops tz (make_day c) st = \<lparr>st_repo = r', st_log = st_log st @ [Attempting commitMessage ds, ev], st_rng = g3\<rparr>"
    using 1 2 3 m unfolding ds_def by (rule commit_once_eq)
  have r: "0 \<le> hh \<and> hh \<le> 23" "0 \<le> mm \<and> mm \<le> 59" "0 \<le> ss \<and> ss \<le> 59"
    using 1 2 3 by (auto simp: getRandomInt_eq random_scale_bounds)
  have "parse_timestamp ds = Some (c, hh, mm, ss, tz (make_day c) hh mm ss)"
    unfolding ds_def using parse_timestamp_moment_format [OF assms(1,2,3)] r assms(4) by simp
  then show ?thesis using 1 2 3 c by simp
qed

theorem commit_once_timestamp_witness:
  "valid_civil \<lparr>c_year = 2024, c_month = 2, c_day = 29\<rparr> \<and> (0::int) \<le> 2024 \<and> (2024::int) \<le> 9999
   \<and> (\<forall>h m s. \<bar>(\<lambda>_ _ _ _. -330::int) (make_day \<lparr>c_year = 2024, c_month = 2, c_day = 29\<rparr>) h m s\<bar> < 6000)
   \<and> (\<exists>ds ev. st_log (commit_once git_repo (\<lambda>_ _ _ _. -330) (make_day \<lparr>c_year = 2024, c_month = 2, c_day = 29\<rparr>)
                 \<lparr>st_repo = fresh_repo, st_log = [], st_rng = \<lparr>rng_seq = \<lambda>_. 0, rng_pos = 0\<rparr>\<rparr>) = [Attempting commitMessage ds, ev]
         \<and> parse_timestamp ds = Some (\<lparr>c_year = 2024, c_month = 2, c_day = 29\<rparr>, 0, 0, 0, -330))"
proof -
  have v: "valid_civil \<lparr>c_year = 2024, c_month = 2, c_day = 29\<rparr>"
    by (simp add: valid_civil_def month_days_def leap_year_def)
  show ?thesis
    using commit_once_timestamp [OF v, of "\<lambda>_ _ _ _. -330" "\<lparr>st_repo = fresh_repo, st_log = [], st_rng = \<lparr>rng_seq = \<lambda>_. 0, rng_pos = 0\<rparr>\<rparr>" git_repo] v
    by (simp add: getRandomInt_eq random_scale_def) blast
qed

end
