(* ===== verification/Generate.thy ===== *)
theory Generate
  imports History
begin

text \<open>
  The whole of \<open>generateHistory\<close> (lines 29--127 of \<open>src/index.js\<close>), as line 129
  runs it: parameter collection, history synthesis, one push. The run starts from the
  repository state \<open>r\<close> and the random source \<open>g\<close>, with an empty console; it is
  \<open>None\<close> while the prompts still wait for a valid answer. Nothing in the body throws
  past its own \<open>try\<close>/\<open>catch\<close> or push callback, so the final \<open>.catch\<close> of line 129
  never fires in the model.
\<close>

definition generate_history ::
  "'r vcs_ops \<Rightarrow> tz \<Rightarrow> int \<Rightarrow> js_string list \<Rightarrow> 'r \<Rightarrow> rng \<Rightarrow> 'r synth_state option" where
  "generate_history ops tz currentYear inputs r g =
     (case collect_params currentYear inputs of
        None \<Rightarrow> None
      | Some (p, lg) \<Rightarrow> Some (push_all ops (synthesize ops tz p \<lparr>st_repo = r, st_log = lg, st_rng = g\<rparr>)))"

section \<open>Runs with a fixed input\<close>

lemma collect_params_2023_low:
  "2023 \<le> cy \<Longrightarrow> collect_params cy [''2023'', ''low'', ''''] =
     Some (\<lparr>targetYear = 2023, commitLevel = ''low'', skippedDays = []\<rparr>, [OptionsHeader])"
  by (simp add: collect_params_def ask_year_def ask_level_def validate_year_def validate_level_def
      js_trim_def js_parseInt_def js_is_ws_def js_is_digit_def digit_value_def js_toLowerCase_def
      js_lower_char_def parse_skip_days_def js_split_def Let_def)

lemma generate_history_2023_low_Some:
  "2023 \<le> cy \<Longrightarrow> generate_history ops tz cy [''2023'', ''low'', ''''] r g =
     Some (push_all ops (synthesize ops tz \<lparr>targetYear = 2023, commitLevel = ''low'', skippedDays = []\<rparr>
             \<lparr>st_repo = r, st_log = [OptionsHeader], st_rng = g\<rparr>))"
  by (simp add: generate_history_def collect_params_2023_low)

section \<open>Properties of a whole run\<close>

text \<open>
  C13. Parameters that the prompts accept are valid: the target year lies in
  \<open>[2008, currentYear]\<close>, the level is one of the table's three, so the commit-count
  draw always uses that level's range and the fallback of one commit a day (line 104) is
  unreachable, and every skipped week day lies in \<open>[0, 6]\<close>.
\<close>

theorem collect_params_valid:
  assumes "collect_params cy inputs = Some (p, lg)"
  shows "2008 \<le> targetYear p \<and> targetYear p \<le> cy
         \<and> (\<exists>lo hi. level_range (commitLevel p) = Some (lo, hi)
                    \<and> (\<forall>g. commits_for_level (commitLevel p) g = getRandomInt lo hi g))
         \<and> (\<forall>d\<in>set (skippedDays p). 0 \<le> d \<and> d \<le> 6)"
proof -
  obtain sy sl ss where y: "validate_year cy sy = Some (targetYear p)"
      and l: "validate_level sl = Some (commitLevel p)" and s: "skippedDays p = parse_skip_days ss"
    using collect_params_Some [OF assms] by blast
  have "commitLevel p \<in> set [''low'', ''medium'', ''high'']" using l by (rule validate_level_names)
  then have lv: "\<exists>lo hi. level_range (commitLevel p) = Some (lo, hi)
                    \<and> (\<forall>g. commits_for_level (commitLevel p) g = getRandomInt lo hi g)"
    by (auto simp: level_range_def commits_for_level_table)
  show ?thesis using validate_year_range [OF y] lv s by (auto simp: parse_skip_days_def)
qed

theorem collect_params_valid_witness:
  "collect_params 2026 [''1999'', '' 2023 '', ''HIGH'', ''0,6''] = Some (\<lparr>targetYear = 2023, commitLevel = ''high'', skippedDays = [0, 6]\<rparr>, [OptionsHeader, InvalidYear 2026])
   \<and> 2008 \<le> (2023::int) \<and> (2023::int) \<le> 2026"
proof -
  have c: "collect_params 2026 [''1999'', '' 2023 '', ''HIGH'', ''0,6''] = Some (\<lparr>targetYear = 2023, commitLevel = ''high'', skippedDays = [0, 6]\<rparr>, [OptionsHeader, InvalidYear 2026])"
    by code_simp
  show ?thesis using collect_params_valid [OF c] c by simp
qed

text \<open>
  C14. A completed run pushes once, after the last commit attempt: the log ends with the
  synthesis summary, the push notice, the push's outcome and the completion notice, and no
  push notice comes earlier.
\<close>

theorem generate_history_push_once:
  assumes "generate_history ops tz cy inputs r g = Some st"
  shows "\<exists>pre lvl y res. st_log st = pre @ [FinishedGenerating lvl y, Pushing, res, ProcessComplete]
           \<and> Pushing \<notin> set pre \<and> (res = PushSucceeded \<or> (\<exists>e. res = PushFailed e))"
proof -
  obtain p lg where c: "collect_params cy inputs = Some (p, lg)"
      and st: "st = push_all ops (synthesize ops tz p \<lparr>st_repo = r, st_log = lg, st_rng = g\<rparr>)"
    using assms by (auto simp: generate_history_def split: option.splits)
  obtain k1 k2 where lg: "lg = [OptionsHeader] @ replicate k1 (InvalidYear cy) @ replicate k2 InvalidLevel"
    using collect_params_Some [OF c] by blast
  obtain e where e: "st_log (synthesize ops tz p \<lparr>st_repo = r, st_log = lg, st_rng = g\<rparr>)
         = lg @ [Generating (commitLevel p) (targetYear p)] @ e @ [FinishedGenerating (commitLevel p) (targetYear p)]"
      and np: "Pushing \<notin> set e"
    using synthesize_log [of ops tz p "\<lparr>st_repo = r, st_log = lg, st_rng = g\<rparr>"] by auto
  obtain res where res: "st_log st = st_log (synthesize ops tz p \<lparr>st_repo = r, st_log = lg, st_rng = g\<rparr>) @ [Pushing, res, ProcessComplete]"
      "res = PushSucceeded \<or> (\<exists>e. res = PushFailed e)"
    using push_all_log st by blast
  show ?thesis
    using res e np lg
    by (intro exI [of _ "lg @ [Generating (commitLevel p) (targetYear p)] @ e"] exI [of _ "commitLevel p"]
              exI [of _ "targetYear p"] exI [of _ res]) auto
qed

theorem generate_history_push_once_witness:
  "\<exists>st. generate_history git_repo (\<lambda>_ _ _ _. 0) 2026 [''2023'', ''low'', ''''] fresh_repo \<lparr>rng_seq = \<lambda>_. 0, rng_pos = 0\<rparr> = Some st
     \<and> (\<exists>pre lvl y res. st_log st = pre @ [FinishedGenerating lvl y, Pushing, res, ProcessComplete]
           \<and> Pushing \<notin> set pre \<and> (res = PushSucceeded \<or> (\<exists>e. res = PushFailed e)))"
proof -
  obtain st where s: "generate_history git_repo (\<lambda>_ _ _ _. 0) 2026 [''2023'', ''low'', ''''] fresh_repo \<lparr>rng_seq = \<lambda>_. 0, rng_pos = 0\<rparr> = Some st"
    by (rule that [OF generate_history_2023_low_Some]) simp
  show ?thesis using generate_history_push_once [OF s] s by blast
qed

text \<open>
  C15. With the git model as collaborator, a run in a repository whose remote accepts
  pushes publishes every commit it made: afterwards the remote's history is the local
  history, which is the initial history followed by the commits the log reports, and the
  log ends with the push's success.
\<close>

theorem generate_history_publishes:
  assumes "generate_history git_repo tz cy inputs r g = Some st" and "is_repo r" and "remote_ok r"
  shows "remote_history (st_repo st) = history (st_repo st)
         \<and> history (st_repo st) = history r @ committed_events (st_log st)
         \<and> (\<exists>pre. st_log st = pre @ [PushSucceeded, ProcessComplete])"
proof -
  obtain p lg where c: "collect_params cy inputs = Some (p, lg)"
      and st: "st = push_all git_repo (synthesize git_repo tz p \<lparr>st_repo = r, st_log = lg, st_rng = g\<rparr>)"
    using assms by (auto simp: generate_history_def split: option.splits)
  obtain k1 k2 where lg: "lg = [OptionsHeader] @ replicate k1 (InvalidYear cy) @ replicate k2 InvalidLevel"
    using collect_params_Some [OF c] by blast
  have ce: "committed_events lg = []" using lg by simp
  define s where "s = synthesize git_repo tz p \<lparr>st_repo = r, st_log = lg, st_rng = g\<rparr>"
  obtain e where e: "st_log s = lg @ e" "history (st_repo s) = history r @ committed_events e"
      and f: "is_repo (st_repo s)" "remote_ok (st_repo s)"
    using synthesize_git [of "\<lparr>st_repo = r, st_log = lg, st_rng = g\<rparr>" tz p] assms(2,3)
    unfolding s_def [symmetric] git_ext_def by auto
  have "st = s\<lparr>st_repo := (st_repo s)\<lparr>remote_history := history (st_repo s)\<rparr>,
                st_log := st_log s @ [Pushing, PushSucceeded, ProcessComplete]\<rparr>"
    using st f unfolding s_def [symmetric] by (simp add: push_all_def git_repo_def repo_push_def)
  then show ?thesis using e ce by simp
qed

theorem generate_history_publishes_witness:
  "\<exists>st. generate_history git_repo (\<lambda>_ _ _ _. 0) 2026 [''2023'', ''low'', ''''] fresh_repo \<lparr>rng_seq = \<lambda>_. 0, rng_pos = 0\<rparr> = Some st
     \<and> remote_history (st_repo st) = history (st_repo st)
     \<and> history (st_repo st) = history fresh_repo @ committed_events (st_log st)
     \<and> (\<exists>pre. st_log st = pre @ [PushSucceeded, ProcessComplete])"
proof -
  obtain st where s: "generate_history git_repo (\<lambda>_ _ _ _. 0) 2026 [''2023'', ''low'', ''''] fresh_repo \<lparr>rng_seq = \<lambda>_. 0, rng_pos = 0\<rparr> = Some st"
    by (rule that [OF generate_history_2023_low_Some]) simp
  have "is_repo fresh_repo" "remote_ok fresh_repo" by (simp_all add: fresh_repo_def)
  then show ?thesis using generate_history_publishes [OF s] s by blast
qed

text \<open>
  C16. Every completed run attempts, over the year, between the level's minimum and maximum
  times the number of non-skipped days commits, all of them between the synthesis notices.
\<close>

theorem generate_history_attempts:
  assumes "generate_history ops tz cy inputs r g = Some st"
  shows "\<exists>p lg lo hi e res. collect_params cy inputs = Some (p, lg) \<and> level_range (commitLevel p) = Some (lo, hi)
           \<and> st_log st = lg @ [Generating (commitLevel p) (targetYear p)] @ e
                 @ [FinishedGenerating (commitLevel p) (targetYear p), Pushing, res, ProcessComplete]
           \<and> lo * int (length (filter (\<lambda>t. week_day t \<notin> set (skippedDays p)) (year_days (targetYear p))))
               \<le> int (length (attempted_events e))
           \<and> int (length (attempted_events e))
               \<le> hi * int (length (filter (\<lambda>t. week_day t \<notin> set (skippedDays p)) (year_days (targetYear p))))"
proof -
  obtain p lg where c: "collect_params cy inputs = Some (p, lg)"
      and st: "st = push_all ops (synthesize ops tz p \<lparr>st_repo = r, st_log = lg, st_rng = g\<rparr>)"
    using assms by (auto simp: generate_history_def split: option.splits)
  obtain sl where "validate_level sl = Some (commitLevel p)" using collect_params_Some [OF c] by blast
  then have "commitLevel p \<in> set [''low'', ''medium'', ''high'']" by (rule validate_level_names)
  then obtain lo hi where lh: "level_range (commitLevel p) = Some (lo, hi)" by (auto simp: level_range_def)
  obtain e where e: "st_log (synthesize ops tz p \<lparr>st_repo = r, st_log = lg, st_rng = g\<rparr>)
        = lg @ [Generating (commitLevel p) (targetYear p)] @ e @ [FinishedGenerating (commitLevel p) (targetYear p)]"
      and b: "lo * int (length (filter (\<lambda>t. week_day t \<notin> set (skippedDays p)) (year_days (targetYear p))))
               \<le> int (length (attempted_events e))"
             "int (length (attempted_events e))
               \<le> hi * int (length (filter (\<lambda>t. week_day t \<notin> set (skippedDays p)) (year_days (targetYear p))))"
    using synthesize_attempts [OF lh, of ops tz "\<lparr>st_repo = r, st_log = lg, st_rng = g\<rparr>"] by auto
  obtain res where res: "st_log st = st_log (synthesize ops tz p \<lparr>st_repo = r, st_log = lg, st_rng = g\<rparr>) @ [Pushing, res, ProcessComplete]"
    using push_all_log st by blast
  show ?thesis using c lh e b res
    by (intro exI [of _ p] exI [of _ lg] exI [of _ lo] exI [of _ hi] exI [of _ e] exI [of _ res]) simp
qed

theorem generate_history_attempts_witness:
  "\<exists>st. generate_history git_repo (\<lambda>_ _ _ _. 0) 2026 [''2023'', ''low'', ''''] fresh_repo \<lparr>rng_seq = \<lambda>_. 0, rng_pos = 0\<rparr> = Some st
     \<and> (\<exists>p lg lo hi e res. collect_params 2026 [''2023'', ''low'', ''''] = Some (p, lg) \<and> level_range (commitLevel p) = Some (lo, hi)
           \<and> st_log st = lg @ [Generating (commitLevel p) (targetYear p)] @ e
                 @ [FinishedGenerating (commitLevel p) (targetYear p), Pushing, res, ProcessComplete]
           \<and> lo * int (length (filter (\<lambda>t. week_day t \<notin> set (skippedDays p)) (year_days (targetYear p))))
               \<le> int (length (attempted_events e))
           \<and> int (length (attempted_events e))
               \<le> hi * int (length (filter (\<lambda>t. week_day t \<notin> set (skippedDays p)) (year_days (targetYear p)))))"
proof -
  obtain st where s: "generate_history git_repo (\<lambda>_ _ _ _. 0) 2026 [''2023'', ''low'', ''''] fresh_repo \<lparr>rng_seq = \<lambda>_. 0, rng_pos = 0\<rparr> = Some st"
    by (rule that [OF generate_history_2023_low_Some]) simp
  show ?thesis using generate_history_attempts [OF s] s by blast
qed

end
