(* ===== verification/Spec2Isabelle.thy ===== *)
theory Spec2Isabelle
  imports Generate
begin

text \<open>
  \<^bold>\<open>A verification development of \<open>src/index.js\<close>.\<close>

  The program asks the operator for a target year, a commit density level and the week days
  to skip; it then walks through every day of the target year, draws a number of commits for
  each day that is not skipped, writes a marker file \<open>data.json\<close> holding a random
  timestamp of that day and commits it with that date; at the end it pushes once. The model
  is a shallow embedding: each part of the script is a HOL definition computing what the
  script computes, with its effects made explicit.

  \<^bold>\<open>Theories and what they model.\<close>
  \<^item> \<open>Prelude\<close>: the types \<open>draw\<close> (one \<open>Math.random()\<close> result, a \<open>52 word\<close>)
    and \<open>js_string\<close>, and generic lemmas on integer division, sums and folds.
  \<^item> \<open>Js_Builtins\<close>: \<open>trim\<close>, \<open>split\<close>, \<open>toLowerCase\<close>, \<open>parseInt(s, 10)\<close>
    and integer rendering, from the ECMAScript specification (library code, not in
    \<open>src/\<close>); \<open>parseInt\<close> reads back every rendered integer.
  \<^item> \<open>Random_Int\<close>: \<open>getRandomInt\<close> (lines 8--12) as \<open>getRandomInt\<close> over an
    explicit random source \<open>rng\<close> (a sequence of draws and a position), with
    \<open>random_scale\<close> its integer arithmetic and \<open>random_scale_real\<close> the source's
    real-number expression; the switch of lines 91--105 as \<open>commits_for_level\<close>.
  \<^item> \<open>Calendar_Days\<close>, \<open>Calendar\<close>: the ECMAScript date arithmetic moment relies on.
    A date is a day number (days since 1970-01-01); \<open>make_day\<close> and
    \<open>civil_of_day\<close> convert between day numbers and calendar dates, \<open>week_day\<close>
    is \<open>moment#day()\<close>, proved equal to the calendar formula with 0 = Sunday
    (\<open>sakamoto_week_day\<close>).
  \<^item> \<open>Moment_Format\<close>: \<open>moment#format()\<close>, the ISO timestamp with zone offset,
    as \<open>moment_format\<close>, and \<open>parse_timestamp\<close>, the strict ISO 8601 reading that
    \<open>git commit --date\<close> applies to it.
  \<^item> \<open>Effects\<close>: the console as a list of \<open>log_event\<close>s (one constructor per
    \<open>console\<close> call of the script) and the collaborator interface \<open>vcs_ops\<close>
    (\<open>jsonfile.writeFile\<close>, \<open>git.add\<close>, \<open>git.commit\<close>, \<open>git.push\<close>),
    each returning an error or the new collaborator state.
  \<^item> \<open>Vcs\<close>: \<open>makeCommitWithDate\<close> (lines 14--27) over any \<open>vcs_ops\<close>, and the
    repository model \<open>repo\<close>/\<open>git_repo\<close> in which git refuses a commit with nothing
    staged.
  \<^item> \<open>Param_Input\<close>: the prompts of lines 39--71. The operator's answers are a list
    of strings; a prompt loop returns the first valid answer, or \<open>None\<close> while it is
    still waiting. \<open>collect_params\<close> runs the year, level and skip-day prompts in order.
  \<^item> \<open>History\<close>: the synthesis of lines 73--117 (\<open>commit_once\<close>,
    \<open>commit_loop\<close>, \<open>day_step\<close>, \<open>day_loop\<close>, \<open>synthesize\<close>) on the state
    \<open>synth_state\<close> (repository, console, random source), and the push of lines
    119--126 (\<open>push_all\<close>).
  \<^item> \<open>Generate\<close>: \<open>generateHistory\<close> as line 129 runs it, \<open>generate_history\<close>.

  \<^bold>\<open>What is proved.\<close>
  \<^item> Traversal (History): the loop is a fold of the day body over the year's day numbers,
    which are exactly the year's valid dates, each once (C1, C2).
  \<^item> Random counts (Random_Int): the level's count lies in the specified range,
    \<open>getRandomInt\<close> stays in \<open>[min, max]\<close>, and each value of the range is returned
    for \<open>\<lfloor>2^52/n\<rfloor>\<close> or one more of the draws: unbiased up to the resolution of
    \<open>Math.random()\<close> (C3--C5).
  \<^item> Prompts (Param_Input): the year prompt returns the first valid answer with one warning
    per rejected answer, and accepts every decimal year in range at once (C6, C7); a
    comma-separated list of week days reads back exactly (C23).
  \<^item> Synthesis (History): skipped days do nothing but log; every attempted timestamp is a
    moment of a traversed, non-skipped day; each day attempts exactly the drawn count
    whatever the errors; with git, history grows by exactly the logged successes
    (C8--C11).
  \<^item> A divergence (History, C12): two commits of one day with the same timestamp leave the
    marker file unchanged, git refuses the second, and the day ends with fewer commits than
    drawn, below the level's minimum of the specification.
  \<^item> Whole runs (Generate): accepted parameters are valid and make the fallback count
    unreachable; a run pushes once, after all commits; with an accepting remote it
    publishes every commit; its attempt count lies between the level's bounds times the
    number of non-skipped days (C13--C16).
  \<^item> Runs and their log (History): the skip notices are exactly the skipped days; every
    attempt has one outcome; the collaborator's failures never change the days, draws and
    timestamps of a run; the skip test agrees with the calendar week day, 0 = Sunday
    (C17--C20).
  \<^item> What git reads (Moment_Format, this theory): the printed date string reads back as the
    drawn date, time and offset, and every timestamp a run attempts reads back as a date
    of the target year on a non-skipped week day (C21, C22).

  \<^bold>\<open>Choices of the model.\<close>
  \<^item> \<open>Math.random()\<close> is the next of a sequence of 52-bit draws \<open>k\<close>, read as
    \<open>k / 2^52\<close> (V8's generator fills the 52 mantissa bits). The product
    \<open>Math.random() * (max - min + 1)\<close> is taken exactly (\<open>random_scale_real\<close>), and
    its floor is the integer quotient \<open>k * n div 2^52\<close> (\<open>random_scale_real_int\<close>).
    The rounding of the double product, which can only raise a value within one unit in the
    last place below an integer to that integer, is not modelled.
  \<^item> No loop needs fuel: the day traversal terminates by the measure
    \<open>endDay + 1 - t\<close>, the inner loop is structural on the drawn count, and a prompt
    loop is structural on the finite list of answers given so far (\<open>None\<close> when they
    run out, the program still waiting).
  \<^item> \<open>currentYear\<close> is one value for the whole run, while line 46 re-reads
    \<open>moment().year()\<close> at each prompt: the model assumes the prompting does not
    straddle a New Year.
  \<^item> The time zone is a parameter \<open>tz\<close> giving the offset of each local date and time;
    local midnight is assumed to exist (no DST gap at 00:00), and the printed hour is the
    drawn one: at a DST gap moment would move a non-existent local time forward by the gap,
    which the model does not do.
  \<^item> The git collaborator follows the contract of the specification (section 4.4): a
    commit with nothing staged fails with \<open>CommitError\<close>. The real simple-git may instead
    resolve when git reports nothing to commit on standard output only; C11, C12 and C15
    rest on the contract.
  \<^item> Strings are ASCII (trim strips the six ASCII white-space characters, not the Unicode
    ones); console messages are events carrying their data, not their wording.

  \<^bold>\<open>Not modelled.\<close> readline's terminal I/O (replaced by the answer list), the wording
  of the console messages, the printed error objects, and asynchrony (every \<open>await\<close> is
  sequential in the script, so the order of effects is the program order).
\<close>

section \<open>What git reads from a run\<close>

text \<open>
  C22. The specification's invariant that every commit's timestamp falls within its day,
  read through the date string git receives: for a target year in \<open>[0, 9999]\<close> and a
  zone offset under 100 hours, every timestamp a run attempts reads back as a valid date of
  the target year whose week day (0 = Sunday) is not skipped, with an hour in
  \<open>[0, 23]\<close> and a minute and a second in \<open>[0, 59]\<close>, whatever the collaborator does.
\<close>

theorem synthesize_timestamps_decode:
  assumes "0 \<le> targetYear p" and "targetYear p \<le> 9999" and "\<forall>t hh mm ss. \<bar>tz t hh mm ss\<bar> < 6000"
  shows "\<exists>e. st_log (synthesize ops tz p st)
         = st_log st @ [Generating (commitLevel p) (targetYear p)] @ e @ [FinishedGenerating (commitLevel p) (targetYear p)]
       \<and> (\<forall>ds\<in>set (attempted_events e). \<exists>c hh mm ss off. parse_timestamp ds = Some (c, hh, mm, ss, off)
             \<and> valid_civil c \<and> c_year c = targetYear p \<and> sakamoto_week_day c \<notin> set (skippedDays p)
             \<and> 0 \<le> hh \<and> hh \<le> 23 \<and> 0 \<le> mm \<and> mm \<le> 59 \<and> 0 \<le> ss \<and> ss \<le> 59)"
proof -
  obtain e where e: "st_log (synthesize ops tz p st)
         = st_log st @ [Generating (commitLevel p) (targetYear p)] @ e @ [FinishedGenerating (commitLevel p) (targetYear p)]"
      and all: "\<forall>ds\<in>set (attempted_events e). \<exists>t. t \<in> set (year_days (targetYear p))
             \<and> week_day t \<notin> set (skippedDays p) \<and> stamped_on tz t ds"
    using synthesize_stamped by blast
  have "\<exists>c hh mm ss off. parse_timestamp ds = Some (c, hh, mm, ss, off)
             \<and> valid_civil c \<and> c_year c = targetYear p \<and> sakamoto_week_day c \<notin> set (skippedDays p)
             \<and> 0 \<le> hh \<and> hh \<le> 23 \<and> 0 \<le> mm \<and> mm \<le> 59 \<and> 0 \<le> ss \<and> ss \<le> 59"
    if ds: "ds \<in> set (attempted_events e)" for ds
  proof -
    obtain t where t: "t \<in> set (year_days (targetYear p))" "week_day t \<notin> set (skippedDays p)" "stamped_on tz t ds"
      using all ds by blast
    obtain c hh mm ss off where c: "parse_timestamp ds = Some (c, hh, mm, ss, off)" "valid_civil c"
        "c_year c = targetYear p" "make_day c = t" "0 \<le> hh \<and> hh \<le> 23 \<and> 0 \<le> mm \<and> mm \<le> 59 \<and> 0 \<le> ss \<and> ss \<le> 59"
      using stamped_on_decodes [OF t(3) t(1) assms(1,2)] assms(3) by blast
    have "week_day (make_day c) = sakamoto_week_day c"
      using c(2) by (intro week_day_sakamoto) (simp_all add: valid_civil_def)
    then show ?thesis using c t(2) by auto
  qed
  then show ?thesis using e by blast
qed

theorem synthesize_timestamps_decode_witness:
  "(0::int) \<le> 2024 \<and> (2024::int) \<le> 9999 \<and> (\<forall>t hh mm ss. \<bar>(\<lambda>_ _ _ _. 60::int) t hh mm ss\<bar> < 6000)
   \<and> (\<exists>e. st_log (synthesize git_repo (\<lambda>_ _ _ _. 60) \<lparr>targetYear = 2024, commitLevel = ''high'', skippedDays = [0, 6]\<rparr>
            \<lparr>st_repo = fresh_repo, st_log = [], st_rng = \<lparr>rng_seq = \<lambda>_. 0, rng_pos = 0\<rparr>\<rparr>)
         = [Generating ''high'' 2024] @ e @ [FinishedGenerating ''high'' 2024]
       \<and> list_all (\<lambda>ds. \<exists>c hh mm ss off. parse_timestamp ds = Some (c, hh, mm, ss, off)
             \<and> valid_civil c \<and> c_year c = 2024 \<and> sakamoto_week_day c \<notin> set [0, 6]
             \<and> 0 \<le> hh \<and> hh \<le> 23 \<and> 0 \<le> mm \<and> mm \<le> 59 \<and> 0 \<le> ss \<and> ss \<le> 59)
             (attempted_events e))"
  using synthesize_timestamps_decode [of "\<lparr>targetYear = 2024, commitLevel = ''high'', skippedDays = [0, 6]\<rparr>"
      "\<lambda>_ _ _ _. 60" git_repo "\<lparr>st_repo = fresh_repo, st_log = [], st_rng = \<lparr>rng_seq = \<lambda>_. 0, rng_pos = 0\<rparr>\<rparr>"]
  by (simp add: list_all_iff)

end
